theory Spec2Isabelle
  imports Complex_Main "HOL-Library.Multiset"
begin

section \<open>JavaScript values used by the dashboard\<close>

text \<open>
  Instants are integer milliseconds since the Unix epoch, as \<^verbatim>\<open>Date.getTime()\<close> returns
  them. A JavaScript number that may be \<^verbatim>\<open>NaN\<close> is an \<open>int option\<close> with \<open>None\<close> for
  \<^verbatim>\<open>NaN\<close>; every comparison with \<^verbatim>\<open>NaN\<close> is false. Only integer-valued numbers occur:
  differences of instants, and \<^verbatim>\<open>Math.ceil\<close> of a quotient of two integers (for a
  difference below two to the power 53 milliseconds the floating-point quotient by one day rounds up to
  the exact ceiling).
\<close>

type_synonym js_number = "int option"

definition js_le :: "js_number \<Rightarrow> js_number \<Rightarrow> bool" where
  "js_le a b = (case (a, b) of (Some x, Some y) \<Rightarrow> x \<le> y | _ \<Rightarrow> False)"

definition js_ge :: "js_number \<Rightarrow> js_number \<Rightarrow> bool" where
  "js_ge a b = (case (a, b) of (Some x, Some y) \<Rightarrow> x \<ge> y | _ \<Rightarrow> False)"

definition js_gt :: "js_number \<Rightarrow> js_number \<Rightarrow> bool" where
  "js_gt a b = (case (a, b) of (Some x, Some y) \<Rightarrow> x > y | _ \<Rightarrow> False)"

definition js_eq :: "js_number \<Rightarrow> js_number \<Rightarrow> bool" where
  "js_eq a b = (case (a, b) of (Some x, Some y) \<Rightarrow> x = y | _ \<Rightarrow> False)"

definition js_sub :: "js_number \<Rightarrow> js_number \<Rightarrow> js_number" where
  "js_sub a b = (case (a, b) of (Some x, Some y) \<Rightarrow> Some (x - y) | _ \<Rightarrow> None)"

text \<open>
  A date column as the backend's JSON delivers it: \<^verbatim>\<open>null\<close>, an ISO timestamp (kept as the
  instant it denotes), or no such property at all (\<^verbatim>\<open>undefined\<close>).
\<close>

datatype js_date = Undefined | Null | IsoString int

text \<open>\<^verbatim>\<open>!x\<close> on such a value: only a timestamp string is truthy.\<close>

fun truthy :: "js_date \<Rightarrow> bool" where
  "truthy (IsoString t) = True"
| "truthy Null = False"
| "truthy Undefined = False"

text \<open>
  \<^verbatim>\<open>new Date(x).getTime()\<close>: a timestamp string parses to its instant; \<^verbatim>\<open>null\<close> is converted
  to the number 0, the epoch; \<^verbatim>\<open>undefined\<close> gives an invalid date, whose time is \<^verbatim>\<open>NaN\<close>.
\<close>

fun getTime :: "js_date \<Rightarrow> js_number" where
  "getTime (IsoString t) = Some t"
| "getTime Null = Some 0"
| "getTime Undefined = None"

definition ms_per_day :: int where
  "ms_per_day = 1000 * 60 * 60 * 24"

text \<open>\<^verbatim>\<open>Math.ceil(x / (1000 * 60 * 60 * 24))\<close> on a millisecond count.\<close>

definition ceil_days :: "js_number \<Rightarrow> js_number" where
  "ceil_days x = map_option (\<lambda>d. - ((- d) div ms_per_day)) x"

text \<open>\<^verbatim>\<open>x || d\<close> on a string: the empty string is falsy.\<close>

definition or_default :: "string \<Rightarrow> string \<Rightarrow> string" where
  "or_default s d = (if s = [] then d else s)"

section \<open>Data model\<close>

record category_join =
  name_english :: string
  name_malayalam :: string

record panchayath_join =
  panchayath_name :: string
  district :: string

record registration =
  reg_id :: string
  customer_id :: string
  full_name :: string
  mobile_number :: string
  address :: string
  ward :: string
  agent :: string
  status :: string
  fee :: int
  created_at :: int
  approved_date :: "int option"
  approved_by :: "string option"
  expiry_date :: js_date
  category_id :: string
  preference_category_id :: "string option"
  panchayath_id :: "string option"
  categories :: "category_join option"
  preference_categories :: "category_join option"
  panchayaths :: "panchayath_join option"

record category =
  cat_id :: string
  cat_name_english :: string
  cat_name_malayalam :: string
  expiry_days :: "int option"
  is_active :: bool

text \<open>What a query of the backend returns: an error, or the rows.\<close>

datatype 'a response = Failed | Data 'a

section \<open>Notification bell: the expiry classifier\<close>

record expiring_registration =
  er_id :: string
  name :: string
  phone :: string
  esep_id :: string
  category_name :: string
  location :: string
  er_created_at :: int
  days_remaining :: js_number

record bell_state =
  expiredRegistrations :: "expiring_registration list"
  expiringRegistrations :: "expiring_registration list"
  showAlert :: bool
  loading :: bool
  acknowledged :: bool

text \<open>The query \<^verbatim>\<open>.from('registrations').select(...).eq('status', 'pending')\<close> on the table.\<close>

definition select_pending :: "registration list \<Rightarrow> registration list" where
  "select_pending store = filter (\<lambda>r. status r = ''pending'') store"

text \<open>\<^verbatim>\<open>diffDays\<close> of the classifier, for an expiry column and the instant \<open>now\<close>.\<close>

definition diffDays :: "js_date \<Rightarrow> int \<Rightarrow> js_number" where
  "diffDays e now = ceil_days (js_sub (getTime e) (Some now))"

text \<open>The body of the \<^verbatim>\<open>map\<close> callback.\<close>

definition processReg :: "int \<Rightarrow> registration \<Rightarrow> expiring_registration" where
  "processReg now reg =
     \<lparr> er_id = reg_id reg,
       name = full_name reg,
       phone = mobile_number reg,
       esep_id = customer_id reg,
       category_name =
         (case categories reg of None \<Rightarrow> ''Unknown''
          | Some c \<Rightarrow> or_default (name_english c) ''Unknown''),
       location = address reg,
       er_created_at = created_at reg,
       days_remaining = diffDays (expiry_date reg) now \<rparr>"

text \<open>
  \<^verbatim>\<open>Array.prototype.sort\<close> with the comparator \<^verbatim>\<open>(a, b) => a.days_remaining - b.days_remaining\<close>:
  a stable sort; an element moves behind another only when the comparator is positive
  (a \<^verbatim>\<open>NaN\<close> result counts as 0).
\<close>

definition compareDays :: "expiring_registration \<Rightarrow> expiring_registration \<Rightarrow> js_number" where
  "compareDays a b = js_sub (days_remaining a) (days_remaining b)"

fun js_insert :: "expiring_registration \<Rightarrow> expiring_registration list \<Rightarrow> expiring_registration list" where
  "js_insert a [] = [a]"
| "js_insert a (b # bs) =
     (if js_gt (compareDays a b) (Some 0) then b # js_insert a bs else a # b # bs)"

fun js_sort :: "expiring_registration list \<Rightarrow> expiring_registration list" where
  "js_sort [] = []"
| "js_sort (a # as) = js_insert a (js_sort as)"

definition expired_of :: "expiring_registration list \<Rightarrow> expiring_registration list" where
  "expired_of processedRegs =
     js_sort (filter (\<lambda>reg. js_le (days_remaining reg) (Some 0)) processedRegs)"

definition expiring_of :: "expiring_registration list \<Rightarrow> expiring_registration list" where
  "expiring_of processedRegs =
     js_sort (filter (\<lambda>reg. js_gt (days_remaining reg) (Some 0) \<and> js_le (days_remaining reg) (Some 3))
       processedRegs)"

text \<open>
  \<^verbatim>\<open>fetchExpiringRegistrations\<close>: \<open>resp\<close> is the answer of the backend to the query for the
  pending registrations, \<open>now\<close> the clock. On an error the two lists keep their old value;
  \<^verbatim>\<open>loading\<close> is false again when the function is left.
\<close>

definition fetchExpiringRegistrations ::
  "registration list response \<Rightarrow> int \<Rightarrow> bell_state \<Rightarrow> bell_state" where
  "fetchExpiringRegistrations resp now st =
     (case resp of
        Failed \<Rightarrow> st\<lparr>loading := False\<rparr>
      | Data registrations \<Rightarrow>
          (let processedRegs = map (processReg now) registrations
           in st\<lparr>expiredRegistrations := expired_of processedRegs,
                 expiringRegistrations := expiring_of processedRegs,
                 loading := False\<rparr>))"

text \<open>The list handed to the alert dialog: \<^verbatim>\<open>[...expiredRegistrations, ...expiringRegistrations]\<close>.\<close>

definition alert_registrations :: "bell_state \<Rightarrow> expiring_registration list" where
  "alert_registrations st = expiredRegistrations st @ expiringRegistrations st"

text \<open>The state the bell starts in.\<close>

definition initial_bell :: bell_state where
  "initial_bell =
     \<lparr> expiredRegistrations = [], expiringRegistrations = [], showAlert = False,
       loading = False, acknowledged = False \<rparr>"

text \<open>A registration is listed in a bucket when an entry of the bucket carries its id.\<close>

definition listed :: "registration \<Rightarrow> expiring_registration list \<Rightarrow> bool" where
  "listed r es = (reg_id r \<in> er_id ` set es)"

section \<open>Notification bell: opening the alert\<close>

text \<open>The test both the effect and the click handler make: one of the two lists is not empty.\<close>

definition has_alerts :: "bell_state \<Rightarrow> bool" where
  "has_alerts st = (length (expiredRegistrations st) > 0 \<or> length (expiringRegistrations st) > 0)"

text \<open>The dependency list of the effect: the two lengths and the flag.\<close>

definition effect_deps :: "bell_state \<Rightarrow> nat \<times> nat \<times> bool" where
  "effect_deps st =
     (length (expiredRegistrations st), length (expiringRegistrations st), acknowledged st)"

text \<open>
  The body of the effect, run at the instant \<open>now\<close>: the deadline of the timer it sets with
  \<^verbatim>\<open>setTimeout(..., 2000)\<close>, if it sets one.
\<close>

definition auto_show_effect :: "int \<Rightarrow> bell_state \<Rightarrow> int option" where
  "auto_show_effect now st =
     (if has_alerts st \<and> \<not> acknowledged st then Some (now + 2000) else None)"

text \<open>The callback of the timer: \<^verbatim>\<open>setShowAlert(true)\<close>.\<close>

definition timer_callback :: "bell_state \<Rightarrow> bell_state" where
  "timer_callback st = st\<lparr>showAlert := True\<rparr>"

definition handleNotificationClick :: "bell_state \<Rightarrow> bell_state" where
  "handleNotificationClick st = (if has_alerts st then st\<lparr>showAlert := True\<rparr> else st)"

text \<open>The two callbacks given to the alert dialog, \<^verbatim>\<open>onGotIt\<close> and \<^verbatim>\<open>onOpenChange\<close>.\<close>

definition onGotIt :: "bell_state \<Rightarrow> bell_state" where
  "onGotIt st = st\<lparr>acknowledged := True\<rparr>"

definition onOpenChange :: "bool \<Rightarrow> bell_state \<Rightarrow> bell_state" where
  "onOpenChange b st = st\<lparr>showAlert := b\<rparr>"

text \<open>
  The mounted component: its state, the deadline of the timer that is set and has neither
  fired nor been cleared, and whether it is still mounted.
\<close>

record bell_component =
  bell :: bell_state
  timer :: "int option"
  mounted :: bool

text \<open>
  What can happen to the component: a fetch starts, a fetch is answered, one of the two
  buttons is clicked, the dialog asks to be opened or closed, the acknowledgment button is
  pressed, the timer's callback is due, the component is torn down.
\<close>

datatype bell_event =
  FetchStarts | Fetched "registration list response" | Click | OpenChange bool | GotIt
  | TimerFires | Unmount

text \<open>
  A new state is rendered at the instant \<open>now\<close>. When one of the effect's dependencies has
  changed, the cleanup of the last run clears its timer and the effect runs again; otherwise
  the timer stays as it is.
\<close>

definition rerender :: "int \<Rightarrow> bell_state \<Rightarrow> bell_component \<Rightarrow> bell_component" where
  "rerender now new c =
     c\<lparr> bell := new,
        timer := (if effect_deps new = effect_deps (bell c) then timer c
                  else auto_show_effect now new) \<rparr>"

text \<open>
  One event at the instant \<open>now\<close>. The two buttons are disabled while a fetch is loading.
  The callback of the timer runs when its deadline has come and the timer has not been
  cleared. Tearing down runs the cleanup, and nothing reaches the component afterwards.
\<close>

definition bell_step :: "int \<Rightarrow> bell_event \<Rightarrow> bell_component \<Rightarrow> bell_component" where
  "bell_step now ev c =
     (if \<not> mounted c then c
      else
        (case ev of
           FetchStarts \<Rightarrow> rerender now ((bell c)\<lparr>loading := True\<rparr>) c
         | Fetched resp \<Rightarrow> rerender now (fetchExpiringRegistrations resp now (bell c)) c
         | Click \<Rightarrow> if loading (bell c) then c else rerender now (handleNotificationClick (bell c)) c
         | OpenChange b \<Rightarrow> rerender now (onOpenChange b (bell c)) c
         | GotIt \<Rightarrow> rerender now (onGotIt (bell c)) c
         | TimerFires \<Rightarrow>
             (case timer c of
                None \<Rightarrow> c
              | Some deadline \<Rightarrow>
                  if deadline \<le> now then rerender now (timer_callback (bell c)) (c\<lparr>timer := None\<rparr>)
                  else c)
         | Unmount \<Rightarrow> c\<lparr>timer := None, mounted := False\<rparr>))"

text \<open>Mounting at the instant \<open>now\<close>: the initial state is rendered and the effect runs.\<close>

definition mount_bell :: "int \<Rightarrow> bell_component" where
  "mount_bell now = \<lparr> bell = initial_bell, timer = auto_show_effect now initial_bell, mounted = True \<rparr>"

text \<open>A history: events with their instants, in the order they happen.\<close>

fun bell_run :: "(int \<times> bell_event) list \<Rightarrow> bell_component \<Rightarrow> bell_component" where
  "bell_run [] c = c"
| "bell_run ((now, ev) # rest) c = bell_run rest (bell_step now ev c)"

text \<open>A timer that is set is one the effect would set now: the component is mounted, a list
  is not empty, and the alert has not been acknowledged.\<close>

definition timer_justified :: "bell_component \<Rightarrow> bool" where
  "timer_justified c =
     (case timer c of
        None \<Rightarrow> True
      | Some deadline \<Rightarrow> mounted c \<and> has_alerts (bell c) \<and> \<not> acknowledged (bell c))"

section \<open>Registrations tab: lifecycle operations\<close>

text \<open>
  The object given to \<^verbatim>\<open>.update(...)\<close>: a partial set of columns. \<open>None\<close> is a property the
  object does not have (the column is left alone); \<open>Some v\<close> writes \<open>v\<close>, which for the two
  approval columns may be \<^verbatim>\<open>null\<close>.
\<close>

record update_data =
  u_status :: "string option"
  u_approved_date :: "int option option"
  u_approved_by :: "string option option"
  u_expiry_date :: "js_date option"

definition apply_update :: "update_data \<Rightarrow> registration \<Rightarrow> registration" where
  "apply_update u r =
     r\<lparr> status := (case u_status u of None \<Rightarrow> status r | Some s \<Rightarrow> s),
        approved_date := (case u_approved_date u of None \<Rightarrow> approved_date r | Some d \<Rightarrow> d),
        approved_by := (case u_approved_by u of None \<Rightarrow> approved_by r | Some b \<Rightarrow> b),
        expiry_date := (case u_expiry_date u of None \<Rightarrow> expiry_date r | Some e \<Rightarrow> e) \<rparr>"

text \<open>\<^verbatim>\<open>.from('registrations').update(u).eq('id', rid)\<close> on the table, when the backend accepts it.\<close>

definition update_eq_id :: "update_data \<Rightarrow> string \<Rightarrow> registration list \<Rightarrow> registration list" where
  "update_eq_id u rid store = map (\<lambda>r. if reg_id r = rid then apply_update u r else r) store"

datatype toast = Success string | Error string

text \<open>\<^verbatim>\<open>category?.expiry_days || 30\<close>: no category, no \<^verbatim>\<open>expiry_days\<close> and the number 0 all give 30.\<close>

definition expiryDays_of :: "category option \<Rightarrow> int" where
  "expiryDays_of c =
     (case c of None \<Rightarrow> 30
      | Some cat \<Rightarrow> (case expiry_days cat of None \<Rightarrow> 30 | Some d \<Rightarrow> if d = 0 then 30 else d))"

text \<open>
  The browser's time zone, as \<^verbatim>\<open>Date\<close> uses it: the offset of local time from UTC in
  milliseconds, for an instant given in UTC and for one given in local time.
\<close>

record zone =
  offset_at_utc :: "int \<Rightarrow> int"
  offset_at_local :: "int \<Rightarrow> int"

text \<open>A zone whose offset never changes (India's, for one, or UTC with offset 0).\<close>

definition fixed_zone :: "int \<Rightarrow> zone" where
  "fixed_zone c = \<lparr> offset_at_utc = (\<lambda>_. c), offset_at_local = (\<lambda>_. c) \<rparr>"

text \<open>
  \<^verbatim>\<open>expiryDate.setDate(expiryDate.getDate() + expiryDays)\<close> on \<^verbatim>\<open>new Date()\<close>: the clock is
  taken to local time, moved by whole calendar days there, and taken back to UTC with the
  offset that holds at the new local time.
\<close>

definition add_days :: "zone \<Rightarrow> int \<Rightarrow> int \<Rightarrow> int" where
  "add_days z t n =
     (let local = t + offset_at_utc z t;
          moved = local + n * ms_per_day
      in moved - offset_at_local z moved)"

text \<open>
  \<^verbatim>\<open>updateData\<close> as \<^verbatim>\<open>updateRegistrationStatus(id, status)\<close> builds it from the tab's own copies
  \<open>registrations\<close> and \<open>category_list\<close> (the active categories), the clock \<open>now\<close> (the
  two readings of the clock within one call are taken as the same instant) and the browser's
  time zone.
\<close>

definition updateData_of ::
  "zone \<Rightarrow> registration list \<Rightarrow> category list \<Rightarrow> int \<Rightarrow> string \<Rightarrow> string \<Rightarrow> update_data" where
  "updateData_of tz registrations category_list now rid new_status =
     (if new_status = ''approved'' then
        \<lparr> u_status = Some new_status,
          u_approved_date = Some (Some now),
          u_approved_by = Some (Some ''eva''),
          u_expiry_date =
            (case find (\<lambda>r. reg_id r = rid) registrations of
               None \<Rightarrow> None
             | Some registration \<Rightarrow>
                 if \<not> truthy (expiry_date registration) then
                   (let c = find (\<lambda>c. cat_id c = category_id registration) category_list;
                        expiryDays = expiryDays_of c
                    in Some (IsoString (add_days tz now expiryDays)))
                 else None) \<rparr>
      else
        \<lparr> u_status = Some new_status,
          u_approved_date = None,
          u_approved_by = None,
          u_expiry_date = None \<rparr>)"

text \<open>
  \<^verbatim>\<open>updateRegistrationStatus\<close>: \<open>write_ok\<close> says whether the backend accepted the update; the
  result is the table afterwards and the toast shown.
\<close>

definition updateRegistrationStatus ::
  "bool \<Rightarrow> zone \<Rightarrow> registration list \<Rightarrow> category list \<Rightarrow> int \<Rightarrow> string \<Rightarrow> string \<Rightarrow> registration list
     \<Rightarrow> registration list \<times> toast" where
  "updateRegistrationStatus write_ok tz registrations category_list now rid new_status store =
     (if write_ok then
        (update_eq_id (updateData_of tz registrations category_list now rid new_status) rid store,
         Success (''Registration '' @ new_status @ '' successfully''))
      else (store, Error ''Error updating status''))"

definition approve ::
  "bool \<Rightarrow> zone \<Rightarrow> registration list \<Rightarrow> category list \<Rightarrow> int \<Rightarrow> string \<Rightarrow> registration list
     \<Rightarrow> registration list \<times> toast" where
  "approve write_ok tz registrations category_list now rid store =
     updateRegistrationStatus write_ok tz registrations category_list now rid ''approved'' store"

definition reject ::
  "bool \<Rightarrow> zone \<Rightarrow> registration list \<Rightarrow> category list \<Rightarrow> int \<Rightarrow> string \<Rightarrow> registration list
     \<Rightarrow> registration list \<times> toast" where
  "reject write_ok tz registrations category_list now rid store =
     updateRegistrationStatus write_ok tz registrations category_list now rid ''rejected'' store"

definition restoreData :: update_data where
  "restoreData =
     \<lparr> u_status = Some ''pending'',
       u_approved_date = Some None,
       u_approved_by = Some None,
       u_expiry_date = None \<rparr>"

text \<open>
  \<^verbatim>\<open>restoreRegistration\<close>: \<open>confirmed\<close> is the answer to the \<^verbatim>\<open>confirm\<close> dialog; when it is
  declined nothing is sent and nothing is shown.
\<close>

definition restoreRegistration ::
  "bool \<Rightarrow> bool \<Rightarrow> string \<Rightarrow> registration list \<Rightarrow> registration list \<times> toast option" where
  "restoreRegistration confirmed write_ok rid store =
     (if \<not> confirmed then (store, None)
      else if write_ok then
        (update_eq_id restoreData rid store, Some (Success ''Registration restored to pending status''))
      else (store, Some (Error ''Error restoring registration'')))"

text \<open>The pairing of the two approval columns.\<close>

definition approval_paired :: "registration \<Rightarrow> bool" where
  "approval_paired r = ((approved_date r = None) = (approved_by r = None))"

section \<open>Registrations tab: the expiry filter\<close>

text \<open>
  \<^verbatim>\<open>parseInt(s)\<close> without a radix: leading white space is skipped, a sign is read, a prefix
  \<^verbatim>\<open>0x\<close> or \<^verbatim>\<open>0X\<close> selects base 16, and the longest run of digits is the value; no digit at
  all gives \<^verbatim>\<open>NaN\<close>.
\<close>

definition is_space :: "char \<Rightarrow> bool" where
  "is_space c = (c \<in> set [CHR 0x20, CHR 0x09, CHR 0x0A, CHR 0x0B, CHR 0x0C, CHR 0x0D])"

definition digit_chars :: "(char \<times> nat) list" where
  "digit_chars =
     [(CHR ''0'', 0), (CHR ''1'', 1), (CHR ''2'', 2), (CHR ''3'', 3), (CHR ''4'', 4),
      (CHR ''5'', 5), (CHR ''6'', 6), (CHR ''7'', 7), (CHR ''8'', 8), (CHR ''9'', 9),
      (CHR ''a'', 10), (CHR ''b'', 11), (CHR ''c'', 12), (CHR ''d'', 13), (CHR ''e'', 14),
      (CHR ''f'', 15), (CHR ''A'', 10), (CHR ''B'', 11), (CHR ''C'', 12), (CHR ''D'', 13),
      (CHR ''E'', 14), (CHR ''F'', 15)]"

definition digit_value :: "nat \<Rightarrow> char \<Rightarrow> nat option" where
  "digit_value radix c =
     (case map_of digit_chars c of
        None \<Rightarrow> None
      | Some v \<Rightarrow> if v < radix then Some v else None)"

definition digits_value :: "nat \<Rightarrow> string \<Rightarrow> nat" where
  "digits_value radix z =
     foldl (\<lambda>acc c. acc * radix + (case digit_value radix c of None \<Rightarrow> 0 | Some v \<Rightarrow> v)) 0 z"

definition parseInt :: "string \<Rightarrow> js_number" where
  "parseInt s =
     (let s0 = dropWhile is_space s;
          sign = (case s0 of [] \<Rightarrow> 1 | c # _ \<Rightarrow> if c = CHR ''-'' then - 1 else (1 :: int));
          s1 = (case s0 of [] \<Rightarrow> s0
                | c # rest \<Rightarrow> if c = CHR ''+'' \<or> c = CHR ''-'' then rest else s0);
          hex = (take 2 s1 = ''0x'' \<or> take 2 s1 = ''0X'');
          radix = (if hex then 16 else 10);
          s2 = (if hex then drop 2 s1 else s1);
          z = takeWhile (\<lambda>c. digit_value radix c \<noteq> None) s2
      in if z = [] then None else Some (sign * int (digits_value radix z)))"

text \<open>
  \<^verbatim>\<open>matchesExpiry\<close> of \<^verbatim>\<open>filteredRegistrations\<close>, for the text \<open>expiryFilter\<close> of the filter box
  and the clock \<open>now\<close>.
\<close>

definition matchesExpiry :: "string \<Rightarrow> int \<Rightarrow> registration \<Rightarrow> bool" where
  "matchesExpiry expiryFilter now reg =
     (expiryFilter = [] \<or>
      (if status reg = ''approved'' then False
       else
         (let daysLeft = ceil_days (js_sub (getTime (expiry_date reg)) (Some now));
              filterDays = parseInt expiryFilter
          in if js_eq filterDays (Some 0) then js_le daysLeft (Some 0)
             else js_le daysLeft filterDays \<and> js_ge daysLeft (Some 0))))"

text \<open>
  The decimal numeral of a number, the text an admin types into the filter box for a
  threshold; used to state that every threshold can be entered.
\<close>

definition digit_char :: "nat \<Rightarrow> char" where
  "digit_char d = ''0123456789'' ! d"

fun decimal :: "nat \<Rightarrow> string" where
  "decimal n = (if n < 10 then [digit_char n] else decimal (n div 10) @ [digit_char (n mod 10)])"

declare decimal.simps [simp del]

section \<open>Registrations tab: CSV export\<close>

definition dquote :: char where
  "dquote = CHR 0x22"

definition newline :: char where
  "newline = CHR 0x0A"

text \<open>\<^verbatim>\<open>Array.prototype.join\<close>.\<close>

fun join :: "string \<Rightarrow> string list \<Rightarrow> string" where
  "join sep [] = []"
| "join sep [x] = x"
| "join sep (x # y # ys) = x @ sep @ join sep (y # ys)"

definition headers :: "string list" where
  "headers = [''Name'', ''Mobile Number'', ''Panchayath'', ''Category'', ''Registered Date'', ''Expiry Date'']"

text \<open>
  The fields of one row. \<open>format\<close> is the date library's \<^verbatim>\<open>format(date, pattern)\<close>, which the
  export calls and the repository does not contain; it stays a parameter.
\<close>

definition csv_fields :: "(int \<Rightarrow> string \<Rightarrow> string) \<Rightarrow> registration \<Rightarrow> string list" where
  "csv_fields format reg =
     [ [dquote] @ full_name reg @ [dquote],
       mobile_number reg,
       [dquote] @ (case panchayaths reg of None \<Rightarrow> ''N/A''
                   | Some p \<Rightarrow> or_default (panchayath_name p) ''N/A'') @ [dquote],
       [dquote] @ (case categories reg of None \<Rightarrow> ''N/A''
                   | Some c \<Rightarrow> or_default (name_english c) ''N/A'') @ [dquote],
       format (created_at reg) ''dd/MM/yyyy'',
       (case expiry_date reg of IsoString t \<Rightarrow> format t ''dd/MM/yyyy'' | _ \<Rightarrow> ''N/A'') ]"

definition csvData :: "(int \<Rightarrow> string \<Rightarrow> string) \<Rightarrow> registration list \<Rightarrow> string" where
  "csvData format regs =
     join [newline] (join '','' headers # map (\<lambda>reg. join '','' (csv_fields format reg)) regs)"

definition download_name :: "(int \<Rightarrow> string \<Rightarrow> string) \<Rightarrow> int \<Rightarrow> string" where
  "download_name format now = ''registrations-export-'' @ format now ''yyyy-MM-dd'' @ ''.csv''"

text \<open>\<^verbatim>\<open>handleExportRegistrations\<close>: the name and the content of the file offered for download.\<close>

definition handleExportRegistrations ::
  "(int \<Rightarrow> string \<Rightarrow> string) \<Rightarrow> int \<Rightarrow> registration list \<Rightarrow> string \<times> string" where
  "handleExportRegistrations format now filteredRegistrations =
     (download_name format now, csvData format filteredRegistrations)"

text \<open>
  What a correctly quoted CSV field is, for comparison with the export: the text between
  double quotes, each double quote inside it written twice.
\<close>

definition quoted_field :: "string \<Rightarrow> string" where
  "quoted_field s = [dquote] @ concat (map (\<lambda>c. if c = dquote then [dquote, dquote] else [c]) s) @ [dquote]"

section \<open>Category transfer request\<close>

record category_option =
  co_id :: string
  co_name_english :: string
  co_name_malayalam :: string

record transfer_request =
  tr_registration_id :: string
  tr_from_category_id :: string
  tr_to_category_id :: string
  tr_mobile_number :: string
  tr_customer_id :: string
  tr_full_name :: string
  tr_reason :: "string option"
  tr_status :: string

record transfer_state =
  category_options :: "category_option list"
  selectedCategoryId :: string
  reason :: string
  submitting :: bool
  showForm :: bool

definition initial_transfer_state :: transfer_state where
  "initial_transfer_state =
     \<lparr> category_options = [], selectedCategoryId = [], reason = [], submitting = False,
       showForm = False \<rparr>"

text \<open>
  The query of \<^verbatim>\<open>fetchCategories\<close> on the category table:
  \<^verbatim>\<open>.select('id, name_english, name_malayalam').eq('is_active', true).neq('id', registration.category_id)\<close>.
\<close>

definition select_transfer_targets :: "registration \<Rightarrow> category list \<Rightarrow> category_option list" where
  "select_transfer_targets registration table =
     map (\<lambda>c. \<lparr> co_id = cat_id c, co_name_english = cat_name_english c,
                 co_name_malayalam = cat_name_malayalam c \<rparr>)
       (filter (\<lambda>c. is_active c \<and> cat_id c \<noteq> category_id registration) table)"

definition fetchCategories :: "category_option list response \<Rightarrow> transfer_state \<Rightarrow> transfer_state" where
  "fetchCategories resp st =
     (case resp of Failed \<Rightarrow> st | Data rows \<Rightarrow> st\<lparr>category_options := rows\<rparr>)"

text \<open>
  \<^verbatim>\<open>handleSubmitTransferRequest\<close>: the state afterwards and the row inserted, if any.
  \<open>write_ok\<close> says whether the backend accepted the insert.
\<close>

definition handleSubmitTransferRequest ::
  "bool \<Rightarrow> registration \<Rightarrow> transfer_state \<Rightarrow> transfer_state \<times> transfer_request option" where
  "handleSubmitTransferRequest write_ok registration st =
     (if selectedCategoryId st = [] then (st, None)
      else if write_ok then
        (st\<lparr>showForm := False, selectedCategoryId := [], reason := [], submitting := False\<rparr>,
         Some \<lparr> tr_registration_id = reg_id registration,
                tr_from_category_id = category_id registration,
                tr_to_category_id = selectedCategoryId st,
                tr_mobile_number = mobile_number registration,
                tr_customer_id = customer_id registration,
                tr_full_name = full_name registration,
                tr_reason = (if reason st = [] then None else Some (reason st)),
                tr_status = ''pending'' \<rparr>)
      else (st\<lparr>submitting := False\<rparr>, None))"

text \<open>
  The states the form can be in. \<open>registration\<close> is the registration the form is mounted
  with and \<open>table\<close> the category table at that moment: the categories are fetched once, when
  the form is mounted. After that the select box offers exactly the fetched categories, the
  reason is free text, the form is opened and closed, and requests are submitted. A
  submission reads the registration the form is shown with at that moment, \<open>current\<close>, which
  may have changed since the form was mounted.
\<close>

inductive transfer_reachable :: "registration \<Rightarrow> category list \<Rightarrow> transfer_state \<Rightarrow> bool"
  for registration :: registration and table :: "category list" where
  init: "transfer_reachable registration table initial_transfer_state"
| fetched: "transfer_reachable registration table st \<Longrightarrow>
     transfer_reachable registration table
       (fetchCategories (Data (select_transfer_targets registration table)) st)"
| fetch_failed: "transfer_reachable registration table st \<Longrightarrow>
     transfer_reachable registration table (fetchCategories Failed st)"
| selected: "transfer_reachable registration table st \<Longrightarrow> c \<in> set (category_options st) \<Longrightarrow>
     transfer_reachable registration table (st\<lparr>selectedCategoryId := co_id c\<rparr>)"
| reason_typed: "transfer_reachable registration table st \<Longrightarrow>
     transfer_reachable registration table (st\<lparr>reason := txt\<rparr>)"
| form_toggled: "transfer_reachable registration table st \<Longrightarrow>
     transfer_reachable registration table (st\<lparr>showForm := b\<rparr>)"
| submitted: "transfer_reachable registration table st \<Longrightarrow>
     transfer_reachable registration table (fst (handleSubmitTransferRequest write_ok current st))"


section \<open>Sample data\<close>

text \<open>
  A category with a validity of 45 days and a pending registration in it, created at the
  epoch, with no expiry date. The examples below vary single fields of them.
\<close>

definition sample_category :: category where
  "sample_category =
     \<lparr> cat_id = ''c1'', cat_name_english = ''Job Card'', cat_name_malayalam = ''JC'',
       expiry_days = Some 45, is_active = True \<rparr>"


definition sample_registration :: registration where
  "sample_registration =
     \<lparr> reg_id = ''r1'', customer_id = ''ESEP1'', full_name = ''Anu'', mobile_number = ''9000000001'',
       address = ''Ward 3'', ward = ''3'', agent = ''a'', status = ''pending'', fee = 0,
       created_at = 0, approved_date = None, approved_by = None, expiry_date = Null,
       category_id = ''c1'', preference_category_id = None, panchayath_id = None,
       categories = Some \<lparr> name_english = ''Job Card'', name_malayalam = ''JC'' \<rparr>,
       preference_categories = None, panchayaths = None \<rparr>"

text \<open>The same registration after an approval on an earlier day.\<close>

definition approved_registration :: registration where
  "approved_registration =
     sample_registration\<lparr> status := ''approved'', approved_date := Some 5000,
       approved_by := Some ''eva'', expiry_date := IsoString (45 * ms_per_day) \<rparr>"

text \<open>
  A table of six registrations, checked on day 10: two overdue, two due within three days,
  one due later, and an approved one past its date.
\<close>

definition sample_store :: "registration list" where
  "sample_store =
     [ sample_registration\<lparr>reg_id := ''r1'', expiry_date := IsoString (8 * ms_per_day)\<rparr>,
       sample_registration\<lparr>reg_id := ''r2'', expiry_date := IsoString (12 * ms_per_day)\<rparr>,
       sample_registration\<lparr>reg_id := ''r3'', expiry_date := IsoString (5 * ms_per_day)\<rparr>,
       sample_registration\<lparr>reg_id := ''r4'', expiry_date := IsoString (20 * ms_per_day)\<rparr>,
       sample_registration\<lparr>reg_id := ''r5'', expiry_date := IsoString (11 * ms_per_day)\<rparr>,
       sample_registration\<lparr>reg_id := ''r6'', status := ''approved'', expiry_date := IsoString (2 * ms_per_day)\<rparr> ]"


text \<open>
  Two overdue pending registrations, and the bell after a fetch at instant 0 returned the
  first of them and a fetch one second later returned both.
\<close>

definition overdue_one :: registration where
  "overdue_one = sample_registration\<lparr>expiry_date := IsoString (- ms_per_day)\<rparr>"

definition overdue_two :: registration where
  "overdue_two = sample_registration\<lparr>reg_id := ''r2'', expiry_date := IsoString (- ms_per_day)\<rparr>"

definition bell_after_first_fetch :: bell_component where
  "bell_after_first_fetch = bell_run [(0, Fetched (Data [overdue_one]))] (mount_bell 0)"

definition bell_after_second_fetch :: bell_component where
  "bell_after_second_fetch =
     bell_run [(0, Fetched (Data [overdue_one])), (1000, Fetched (Data [overdue_one, overdue_two]))]
       (mount_bell 0)"

section \<open>Comparisons and day counts\<close>

lemma js_le_Some: "js_le a (Some k) = (\<exists>x. a = Some x \<and> x \<le> k)"
  by (cases a) (simp_all add: js_le_def)

lemma js_ge_Some: "js_ge a (Some k) = (\<exists>x. a = Some x \<and> k \<le> x)"
  by (cases a) (simp_all add: js_ge_def)

lemma js_gt_Some: "js_gt a (Some k) = (\<exists>x. a = Some x \<and> k < x)"
  by (cases a) (simp_all add: js_gt_def)

text \<open>The integer division of the model is the ceiling of the real quotient.\<close>

lemma ceil_days_real:
  "ceil_days (Some d) = Some \<lceil>real_of_int d / real_of_int ms_per_day\<rceil>"
  by (simp add: ceil_days_def ceiling_divide_eq_div)

lemma diffDays_Iso:
  "diffDays (IsoString t) now = Some \<lceil>real_of_int (t - now) / real_of_int ms_per_day\<rceil>"
  by (simp add: diffDays_def js_sub_def ceil_days_real del: of_int_diff)

lemma diffDays_Undefined: "diffDays Undefined now = None"
  by (simp add: diffDays_def js_sub_def ceil_days_def)

lemma diffDays_Null: "diffDays Null now = Some (- (now div ms_per_day))"
  by (simp add: diffDays_def js_sub_def ceil_days_def)

section \<open>Properties of the sort\<close>

lemma mset_js_insert: "mset (js_insert a bs) = add_mset a (mset bs)"
  by (induction bs) simp_all

lemma mset_js_sort: "mset (js_sort as) = mset as"
  by (induction as) (simp_all add: mset_js_insert)

lemma set_js_sort: "set (js_sort as) = set as"
  using mset_js_sort [of as] by (metis set_mset_mset)

lemma set_js_insert: "set (js_insert a bs) = insert a (set bs)"
  using mset_js_insert [of a bs] by (metis set_mset_add_mset_insert set_mset_mset)

lemma js_gt_compareDays:
  "days_remaining a = Some x \<Longrightarrow> days_remaining b = Some y \<Longrightarrow>
   js_gt (compareDays a b) (Some 0) = (y < x)"
  by (simp add: js_gt_def compareDays_def js_sub_def)

lemma sorted_js_insert:
  assumes "\<forall>x \<in> set (a # bs). days_remaining x \<noteq> None"
    and "sorted_wrt (\<lambda>a b. js_le (days_remaining a) (days_remaining b)) bs"
  shows "sorted_wrt (\<lambda>a b. js_le (days_remaining a) (days_remaining b)) (js_insert a bs)"
  using assms
proof (induction bs)
  case Nil
  then show ?case by simp
next
  case (Cons b bs)
  from Cons.prems(1) obtain x y where xy: "days_remaining a = Some x" "days_remaining b = Some y"
    by auto
  show ?case
  proof (cases "y < x")
    case True
    have "sorted_wrt (\<lambda>a b. js_le (days_remaining a) (days_remaining b)) (js_insert a bs)"
      using Cons by simp
    moreover have "\<forall>z \<in> set (js_insert a bs). js_le (days_remaining b) (days_remaining z)"
      using Cons.prems(2) True xy by (auto simp: set_js_insert js_le_def)
    ultimately show ?thesis using True xy by (simp add: js_gt_compareDays)
  next
    case False
    have "\<forall>z \<in> set bs. js_le (days_remaining a) (days_remaining z)"
    proof
      fix z assume "z \<in> set bs"
      then have "js_le (days_remaining b) (days_remaining z)" using Cons.prems(2) by simp
      then show "js_le (days_remaining a) (days_remaining z)"
        using False xy by (auto simp: js_le_def split: option.splits)
    qed
    then show ?thesis using False xy Cons.prems(2) by (simp add: js_gt_compareDays js_le_def)
  qed
qed

lemma sorted_js_sort:
  "\<forall>x \<in> set as. days_remaining x \<noteq> None \<Longrightarrow>
   sorted_wrt (\<lambda>a b. js_le (days_remaining a) (days_remaining b)) (js_sort as)"
  by (induction as) (simp_all add: sorted_js_insert set_js_sort)

section \<open>The two buckets of the notification bell\<close>

lemma set_expired_of:
  "set (expired_of ps) = {e \<in> set ps. js_le (days_remaining e) (Some 0)}"
  by (auto simp: expired_of_def set_js_sort)

lemma set_expiring_of:
  "set (expiring_of ps) =
     {e \<in> set ps. js_gt (days_remaining e) (Some 0) \<and> js_le (days_remaining e) (Some 3)}"
  by (auto simp: expiring_of_def set_js_sort)

lemma fetch_Data_expired:
  "expiredRegistrations (fetchExpiringRegistrations (Data rs) now st) = expired_of (map (processReg now) rs)"
  by (simp add: fetchExpiringRegistrations_def Let_def)

lemma fetch_Data_expiring:
  "expiringRegistrations (fetchExpiringRegistrations (Data rs) now st) = expiring_of (map (processReg now) rs)"
  by (simp add: fetchExpiringRegistrations_def Let_def)

lemma er_id_processReg: "er_id (processReg now r) = reg_id r"
  by (simp add: processReg_def)

lemma days_processReg: "days_remaining (processReg now r) = diffDays (expiry_date r) now"
  by (simp add: processReg_def)

text \<open>With unique ids, an id is found among the selected entries exactly when its row was selected.\<close>

lemma listed_filter:
  assumes "distinct (map reg_id store)" "r \<in> set store"
  shows "(reg_id r \<in> er_id ` {e \<in> set (map (processReg now) (filter P store)). Q (days_remaining e)})
         = (P r \<and> Q (diffDays (expiry_date r) now))"
proof
  assume "reg_id r \<in> er_id ` {e \<in> set (map (processReg now) (filter P store)). Q (days_remaining e)}"
  then obtain e where e: "e \<in> set (map (processReg now) (filter P store))"
      "Q (days_remaining e)" "er_id e = reg_id r"
    by force
  from e(1) obtain r' where r': "r' \<in> set store" "P r'" "e = processReg now r'"
    by auto
  have "reg_id r' = reg_id r" using e(3) r'(3) by (simp add: er_id_processReg)
  then have "r' = r" using assms r'(1) by (meson distinct_map inj_onD)
  then show "P r \<and> Q (diffDays (expiry_date r) now)"
    using r' e(2) by (simp add: days_processReg)
next
  assume a: "P r \<and> Q (diffDays (expiry_date r) now)"
  then have "processReg now r \<in> {e \<in> set (map (processReg now) (filter P store)). Q (days_remaining e)}"
    using assms(2) by (simp add: days_processReg)
  then have "er_id (processReg now r) \<in> er_id ` {e \<in> set (map (processReg now) (filter P store)). Q (days_remaining e)}"
    by (rule imageI)
  then show "reg_id r \<in> er_id ` {e \<in> set (map (processReg now) (filter P store)). Q (days_remaining e)}"
    by (simp only: er_id_processReg)
qed

lemma listed_expired:
  assumes "distinct (map reg_id store)" "r \<in> set store"
  shows "listed r (expired_of (map (processReg now) (select_pending store)))
         = (status r = ''pending'' \<and> js_le (diffDays (expiry_date r) now) (Some 0))"
  unfolding listed_def set_expired_of select_pending_def
  by (rule listed_filter [OF assms])

lemma listed_expiring:
  assumes "distinct (map reg_id store)" "r \<in> set store"
  shows "listed r (expiring_of (map (processReg now) (select_pending store)))
         = (status r = ''pending'' \<and> js_gt (diffDays (expiry_date r) now) (Some 0)
              \<and> js_le (diffDays (expiry_date r) now) (Some 3))"
  unfolding listed_def set_expiring_of select_pending_def
  by (rule listed_filter [OF assms, where Q = "\<lambda>d. js_gt d (Some 0) \<and> js_le d (Some 3)"])

section \<open>Evaluation of the model on concrete data\<close>

lemmas eval_defs = select_pending_def fetchExpiringRegistrations_def processReg_def diffDays_def
  ceil_days_def js_sub_def js_le_def js_gt_def js_ge_def js_eq_def expired_of_def expiring_of_def compareDays_def
  ms_per_day_def sample_registration_def sample_category_def initial_bell_def listed_def or_default_def Let_def

section \<open>The expiry classifier of the notification bell\<close>

text \<open>
  Claim C3, as the spec states it: every registration whose status is not approved and that has
  an expiry date is classified expired when its days remaining are at most 0. The bell asks
  the backend for the pending registrations only, so a rejected registration one day past
  its expiry date is in no bucket.
\<close>

theorem classifier_skips_rejected_counterexample:
  "status (sample_registration\<lparr>status := ''rejected'', expiry_date := IsoString 0\<rparr>) \<noteq> ''approved'' \<and>
   diffDays (expiry_date (sample_registration\<lparr>status := ''rejected'', expiry_date := IsoString 0\<rparr>)) ms_per_day
     = Some (- 1) \<and>
   expiredRegistrations (fetchExpiringRegistrations
     (Data (select_pending [sample_registration\<lparr>status := ''rejected'', expiry_date := IsoString 0\<rparr>]))
     ms_per_day initial_bell) = []"
  by (simp add: eval_defs)

text \<open>
  Claim C3, amended. In a table with unique ids, for a registration with an expiry date the
  days remaining are the ceiling of the time left divided by one day. If its status is
  pending, the bell lists it as expired exactly when the days remaining are at most 0, as
  expiring soon exactly when they are between 1 and 3, and in neither list exactly when they
  exceed 3. If its status is anything else (approved, rejected), the bell lists it in neither.
\<close>

theorem classifier_counts_pending_only:
  assumes "distinct (map reg_id store)" and "r \<in> set store" and "expiry_date r = IsoString t"
  shows "let st' = fetchExpiringRegistrations (Data (select_pending store)) now st;
             d = \<lceil>real_of_int (t - now) / real_of_int ms_per_day\<rceil>
         in diffDays (expiry_date r) now = Some d \<and>
            (if status r = ''pending'' then
               (listed r (expiredRegistrations st') = (d \<le> 0)) \<and>
               (listed r (expiringRegistrations st') = (0 < d \<and> d \<le> 3)) \<and>
               ((\<not> listed r (expiredRegistrations st') \<and> \<not> listed r (expiringRegistrations st')) = (3 < d))
             else \<not> listed r (expiredRegistrations st') \<and> \<not> listed r (expiringRegistrations st'))"
proof -
  define d where "d = \<lceil>real_of_int (t - now) / real_of_int ms_per_day\<rceil>"
  have dd: "diffDays (expiry_date r) now = Some d"
    using assms(3) unfolding d_def by (simp only: diffDays_Iso)
  have e: "listed r (expiredRegistrations (fetchExpiringRegistrations (Data (select_pending store)) now st))
      = (status r = ''pending'' \<and> d \<le> 0)"
    unfolding fetch_Data_expired listed_expired [OF assms(1,2)] dd by (simp add: js_le_def)
  have g: "listed r (expiringRegistrations (fetchExpiringRegistrations (Data (select_pending store)) now st))
      = (status r = ''pending'' \<and> 0 < d \<and> d \<le> 3)"
    unfolding fetch_Data_expiring listed_expiring [OF assms(1,2)] dd by (simp add: js_le_def js_gt_def)
  show ?thesis
    unfolding Let_def d_def [symmetric] e g using dd by auto
qed

theorem classifier_counts_pending_only_witness:
  "distinct (map reg_id [sample_registration\<lparr>expiry_date := IsoString (3 * ms_per_day)\<rparr>]) \<and>
   sample_registration\<lparr>expiry_date := IsoString (3 * ms_per_day)\<rparr>
     \<in> set [sample_registration\<lparr>expiry_date := IsoString (3 * ms_per_day)\<rparr>] \<and>
   expiry_date (sample_registration\<lparr>expiry_date := IsoString (3 * ms_per_day)\<rparr>) = IsoString (3 * ms_per_day) \<and>
   status (sample_registration\<lparr>expiry_date := IsoString (3 * ms_per_day)\<rparr>) = ''pending'' \<and>
   diffDays (IsoString (3 * ms_per_day)) 0 = Some 3 \<and>
   listed (sample_registration\<lparr>expiry_date := IsoString (3 * ms_per_day)\<rparr>)
     (expiringRegistrations (fetchExpiringRegistrations
        (Data (select_pending [sample_registration\<lparr>expiry_date := IsoString (3 * ms_per_day)\<rparr>])) 0 initial_bell)) \<and>
   \<not> listed (sample_registration\<lparr>expiry_date := IsoString (3 * ms_per_day)\<rparr>)
     (expiredRegistrations (fetchExpiringRegistrations
        (Data (select_pending [sample_registration\<lparr>expiry_date := IsoString (3 * ms_per_day)\<rparr>])) 0 initial_bell))"
proof -
  have c: "\<lceil>real_of_int (3 * ms_per_day - 0) / real_of_int ms_per_day\<rceil> = 3"
    by (simp add: ms_per_day_def)
  have s: "status (sample_registration\<lparr>expiry_date := IsoString (3 * ms_per_day)\<rparr>) = ''pending''"
    by (simp add: sample_registration_def)
  show ?thesis
    using classifier_counts_pending_only [of "[sample_registration\<lparr>expiry_date := IsoString (3 * ms_per_day)\<rparr>]"
        "sample_registration\<lparr>expiry_date := IsoString (3 * ms_per_day)\<rparr>" "3 * ms_per_day" 0 initial_bell]
    unfolding Let_def c by (simp add: s)
qed

text \<open>
  The boundaries: an expiry exactly three days ahead is expiring soon, three days and one
  second ahead is in neither list, and an expiry at the very instant of the check is expired.
\<close>

lemma classifier_boundaries:
  "map days_remaining (expiringRegistrations (fetchExpiringRegistrations
     (Data (select_pending [sample_registration\<lparr>expiry_date := IsoString (1000 + 3 * ms_per_day)\<rparr>]))
     1000 initial_bell)) = [Some 3]"
  "alert_registrations (fetchExpiringRegistrations
     (Data (select_pending [sample_registration\<lparr>expiry_date := IsoString (1000 + 3 * ms_per_day + 1000)\<rparr>]))
     1000 initial_bell) = []"
  "map days_remaining (expiredRegistrations (fetchExpiringRegistrations
     (Data (select_pending [sample_registration\<lparr>expiry_date := IsoString 1000\<rparr>]))
     1000 initial_bell)) = [Some 0]"
  by (simp_all add: eval_defs alert_registrations_def)


section \<open>The notification aggregator\<close>

text \<open>
  Claim C7. From the pending registrations of the table, a fetch that the backend answers
  recomputes the two lists: the expired list holds exactly the entries with at most 0 days
  remaining, the expiring-soon list exactly those with 1 to 3 days remaining, each is sorted
  ascending by days remaining, and the list given to the alert is the expired list followed
  by the expiring-soon list (which is therefore sorted as a whole).
\<close>

theorem aggregator_buckets:
  "let st' = fetchExpiringRegistrations (Data (select_pending store)) now st;
       processedRegs = map (processReg now) (filter (\<lambda>r. status r = ''pending'') store)
   in mset (expiredRegistrations st')
        = mset (filter (\<lambda>e. js_le (days_remaining e) (Some 0)) processedRegs) \<and>
      mset (expiringRegistrations st')
        = mset (filter (\<lambda>e. js_gt (days_remaining e) (Some 0) \<and> js_le (days_remaining e) (Some 3))
                  processedRegs) \<and>
      sorted_wrt (\<lambda>a b. js_le (days_remaining a) (days_remaining b)) (expiredRegistrations st') \<and>
      sorted_wrt (\<lambda>a b. js_le (days_remaining a) (days_remaining b)) (expiringRegistrations st') \<and>
      alert_registrations st' = expiredRegistrations st' @ expiringRegistrations st' \<and>
      sorted_wrt (\<lambda>a b. js_le (days_remaining a) (days_remaining b)) (alert_registrations st')"
proof -
  let ?R = "\<lambda>a b. js_le (days_remaining a) (days_remaining b)"
  let ?ps = "map (processReg now) (select_pending store)"
  have n1: "\<forall>x \<in> set (filter (\<lambda>e. js_le (days_remaining e) (Some 0)) ?ps). days_remaining x \<noteq> None"
    by (auto simp: js_le_Some)
  have n2: "\<forall>x \<in> set (filter (\<lambda>e. js_gt (days_remaining e) (Some 0) \<and> js_le (days_remaining e) (Some 3)) ?ps).
      days_remaining x \<noteq> None"
    by (auto simp: js_le_Some)
  have s1: "sorted_wrt ?R (expired_of ?ps)"
    unfolding expired_of_def using n1 by (rule sorted_js_sort)
  have s2: "sorted_wrt ?R (expiring_of ?ps)"
    unfolding expiring_of_def using n2 by (rule sorted_js_sort)
  have cross: "?R a b" if "a \<in> set (expired_of ?ps)" "b \<in> set (expiring_of ?ps)" for a b
  proof -
    from that(1) obtain x where x: "days_remaining a = Some x" "x \<le> 0"
      by (auto simp: set_expired_of js_le_Some)
    from that(2) obtain y where y: "days_remaining b = Some y" "0 < y"
      by (auto simp: set_expiring_of js_gt_Some)
    show ?thesis using x y by (simp add: js_le_def)
  qed
  have s3: "sorted_wrt ?R (expired_of ?ps @ expiring_of ?ps)"
    using s1 s2 cross by (simp add: sorted_wrt_append)
  have m1: "mset (expired_of ?ps) = mset (filter (\<lambda>e. js_le (days_remaining e) (Some 0)) ?ps)"
    by (simp add: expired_of_def mset_js_sort)
  have m2: "mset (expiring_of ?ps) =
      mset (filter (\<lambda>e. js_gt (days_remaining e) (Some 0) \<and> js_le (days_remaining e) (Some 3)) ?ps)"
    by (simp add: expiring_of_def mset_js_sort)
  show ?thesis
    unfolding Let_def alert_registrations_def fetch_Data_expired fetch_Data_expiring
      select_pending_def [symmetric]
    using s1 s2 s3 m1 m2 by (intro conjI) simp_all
qed

lemma sample_run:
  "map (\<lambda>e. (er_id e, days_remaining e))
     (expiredRegistrations (fetchExpiringRegistrations (Data (select_pending sample_store)) (10 * ms_per_day) initial_bell))
     = [(''r3'', Some (- 5)), (''r1'', Some (- 2))]"
  "map (\<lambda>e. (er_id e, days_remaining e))
     (expiringRegistrations (fetchExpiringRegistrations (Data (select_pending sample_store)) (10 * ms_per_day) initial_bell))
     = [(''r5'', Some 1), (''r2'', Some 2)]"
  by (simp_all add: eval_defs sample_store_def)

theorem aggregator_buckets_witness:
  "map (\<lambda>e. (er_id e, days_remaining e))
     (alert_registrations (fetchExpiringRegistrations (Data (select_pending sample_store)) (10 * ms_per_day) initial_bell))
     = [(''r3'', Some (- 5)), (''r1'', Some (- 2)), (''r5'', Some 1), (''r2'', Some 2)] \<and>
   sorted_wrt (\<lambda>a b. js_le (days_remaining a) (days_remaining b))
     (alert_registrations (fetchExpiringRegistrations (Data (select_pending sample_store)) (10 * ms_per_day) initial_bell))"
proof -
  note t = aggregator_buckets [of sample_store "10 * ms_per_day" initial_bell, unfolded Let_def]
  from t have a: "alert_registrations (fetchExpiringRegistrations (Data (select_pending sample_store)) (10 * ms_per_day) initial_bell)
      = expiredRegistrations (fetchExpiringRegistrations (Data (select_pending sample_store)) (10 * ms_per_day) initial_bell)
        @ expiringRegistrations (fetchExpiringRegistrations (Data (select_pending sample_store)) (10 * ms_per_day) initial_bell)"
    by (elim conjE)
  from t have s: "sorted_wrt (\<lambda>a b. js_le (days_remaining a) (days_remaining b))
     (alert_registrations (fetchExpiringRegistrations (Data (select_pending sample_store)) (10 * ms_per_day) initial_bell))"
    by (elim conjE)
  show ?thesis using s by (simp add: a sample_run)
qed


section \<open>Opening the alert\<close>

lemmas bell_defs = bell_step_def rerender_def auto_show_effect_def effect_deps_def has_alerts_def
  timer_callback_def handleNotificationClick_def onGotIt_def onOpenChange_def mount_bell_def
  timer_justified_def

lemma fetch_keeps_flags:
  "acknowledged (fetchExpiringRegistrations resp now st) = acknowledged st"
  "showAlert (fetchExpiringRegistrations resp now st) = showAlert st"
  by (cases resp; simp add: fetchExpiringRegistrations_def Let_def)+

lemma timer_justified_mount: "timer_justified (mount_bell now)"
  by (simp add: bell_defs initial_bell_def)

lemma timer_justified_rerender:
  assumes "timer_justified c" "mounted c"
    and "effect_deps new = effect_deps (bell c) \<Longrightarrow> has_alerts new = has_alerts (bell c)"
  shows "timer_justified (rerender now new c)"
proof (cases "effect_deps new = effect_deps (bell c)")
  case True
  then have "acknowledged new = acknowledged (bell c)" by (simp add: effect_deps_def)
  then show ?thesis using assms True
    by (simp add: timer_justified_def rerender_def split: option.splits)
next
  case False
  then show ?thesis using assms(2)
    by (simp add: timer_justified_def rerender_def auto_show_effect_def)
qed

lemma has_alerts_deps: "effect_deps new = effect_deps old \<Longrightarrow> has_alerts new = has_alerts old"
  by (simp add: effect_deps_def has_alerts_def)

lemma timer_justified_rerender_deps:
  assumes "timer_justified c" "mounted c"
  shows "timer_justified (rerender now new c)"
  by (rule timer_justified_rerender [OF assms]) (rule has_alerts_deps)

lemma timer_justified_step: "timer_justified c \<Longrightarrow> timer_justified (bell_step now ev c)"
proof (cases "mounted c")
  case False
  assume "timer_justified c"
  then show ?thesis using False by (simp add: bell_step_def)
next
  case True
  assume j: "timer_justified c"
  have j0: "timer_justified (c\<lparr>timer := None\<rparr>)" by (simp add: timer_justified_def)
  have m0: "mounted (c\<lparr>timer := None\<rparr>)" using True by simp
  note r = timer_justified_rerender_deps [OF j True]
  show ?thesis
  proof (cases ev)
    case FetchStarts
    then show ?thesis using True r by (simp add: bell_step_def)
  next
    case (Fetched resp)
    then show ?thesis using True r by (simp add: bell_step_def)
  next
    case Click
    then show ?thesis using True r j by (simp add: bell_step_def)
  next
    case (OpenChange b)
    then show ?thesis using True r by (simp add: bell_step_def)
  next
    case GotIt
    then show ?thesis using True r by (simp add: bell_step_def)
  next
    case Unmount
    then show ?thesis using True by (simp add: bell_step_def timer_justified_def)
  next
    case TimerFires
    show ?thesis
    proof (cases "timer c")
      case None
      then show ?thesis using j True TimerFires by (simp add: bell_step_def)
    next
      case (Some d)
      have "timer_justified (rerender now (timer_callback (bell c)) (c\<lparr>timer := None\<rparr>))"
        by (rule timer_justified_rerender_deps [OF j0 m0])
      then show ?thesis using j True TimerFires Some by (simp add: bell_step_def)
    qed
  qed
qed

lemma timer_justified_run: "timer_justified c \<Longrightarrow> timer_justified (bell_run es c)"
  by (induction es arbitrary: c) (auto simp: timer_justified_step)

lemma acknowledged_step:
  "acknowledged (bell (bell_step now ev c)) = (acknowledged (bell c) \<or> (ev = GotIt \<and> mounted c))"
  by (cases ev; cases "timer c")
     (simp_all add: bell_step_def rerender_def timer_callback_def handleNotificationClick_def
        onGotIt_def onOpenChange_def fetch_keeps_flags)


lemma deps_timer_fires:
  "effect_deps (bell (bell_step now TimerFires c)) = effect_deps (bell c)"
  by (cases "timer c")
     (simp_all add: bell_step_def rerender_def timer_callback_def effect_deps_def)

lemma step_arms:
  assumes "effect_deps (bell (bell_step now ev c)) \<noteq> effect_deps (bell c)"
    and "has_alerts (bell (bell_step now ev c))" and "\<not> acknowledged (bell (bell_step now ev c))"
  shows "timer (bell_step now ev c) = Some (now + 2000)"
proof (cases "mounted c")
  case False
  then show ?thesis using assms(1) by (simp add: bell_step_def)
next
  case True
  show ?thesis
  proof (cases ev)
    case TimerFires
    then show ?thesis using assms(1) deps_timer_fires [of now c] by simp
  next
    case Unmount
    then show ?thesis using assms(1) True by (simp add: bell_step_def)
  next
    case Click
    then show ?thesis using assms True
      by (cases "loading (bell c)") (simp_all add: bell_step_def rerender_def auto_show_effect_def)
  qed (use assms True in \<open>simp_all add: bell_step_def rerender_def auto_show_effect_def\<close>)
qed

lemma step_keeps_timer:
  assumes "effect_deps (bell (bell_step now ev c)) = effect_deps (bell c)"
    and "ev \<noteq> TimerFires" and "ev \<noteq> Unmount"
  shows "timer (bell_step now ev c) = timer c"
proof (cases "mounted c")
  case False
  then show ?thesis by (simp add: bell_step_def)
next
  case True
  show ?thesis
  proof (cases ev)
    case Click
    then show ?thesis using assms(1) True
      by (cases "loading (bell c)") (simp_all add: bell_step_def rerender_def)
  qed (use assms True in \<open>simp_all add: bell_step_def rerender_def\<close>)
qed

lemma step_fires:
  assumes "timer_justified c" and "timer c = Some d"
  shows "bell_step now TimerFires c =
     (if d \<le> now then c\<lparr>bell := (bell c)\<lparr>showAlert := True\<rparr>, timer := None\<rparr> else c)"
proof -
  have "mounted c" using assms by (simp add: timer_justified_def)
  then show ?thesis using assms(2)
    by (simp add: bell_step_def rerender_def timer_callback_def effect_deps_def)
qed

lemma step_no_timer: "timer c = None \<Longrightarrow> bell_step now TimerFires c = c"
  by (simp add: bell_step_def)

lemma step_unmount:
  "timer (bell_step now Unmount c) = None \<or> \<not> mounted c"
  "\<not> mounted (bell_step now Unmount c)"
  "bell_step later ev (bell_step now Unmount c) = bell_step now Unmount c"
  by (simp_all add: bell_step_def)

lemma acknowledged_timer:
  "timer_justified c \<Longrightarrow> acknowledged (bell c) \<Longrightarrow> timer c = None"
  by (cases "timer c") (simp_all add: timer_justified_def)

lemma step_opens:
  assumes "showAlert (bell (bell_step now ev c))" and "\<not> showAlert (bell c)"
  shows "ev = Click \<or> ev = OpenChange True \<or> (ev = TimerFires \<and> timer c \<noteq> None)"
proof (cases "mounted c")
  case False
  then show ?thesis using assms by (simp add: bell_step_def)
next
  case True
  show ?thesis
  proof (cases ev)
    case TimerFires
    then show ?thesis using assms True by (cases "timer c") (simp_all add: bell_step_def)
  qed (use assms True in \<open>simp_all add: bell_step_def rerender_def onOpenChange_def onGotIt_def
        fetch_keeps_flags\<close>)
qed

lemma step_click:
  assumes "mounted c" "has_alerts (bell c)" "\<not> loading (bell c)"
  shows "showAlert (bell (bell_step now Click c))"
    and "alert_registrations (bell (bell_step now Click c)) = alert_registrations (bell c)"
  using assms
  by (simp_all add: bell_step_def rerender_def handleNotificationClick_def alert_registrations_def)

lemma step_gotIt_lists:
  "expiredRegistrations (bell (bell_step now GotIt c)) = expiredRegistrations (bell c)"
  "expiringRegistrations (bell (bell_step now GotIt c)) = expiringRegistrations (bell c)"
  by (simp_all add: bell_step_def rerender_def onGotIt_def)


text \<open>
  Claim C8, as stated: whenever a list is not empty and the alert has not been acknowledged,
  the alert opens by itself after a fixed delay of two seconds. The effect depends on the
  lengths of the two lists, so each change of a length clears the timer and sets a new one.
  A fetch at instant 0 finds one overdue registration and sets the timer for 2000; a fetch at
  1000 finds two and sets it again, for 3000. At 2000 the condition has held for two seconds
  without an acknowledgment, and the alert is closed and stays closed; it opens at 3000.
\<close>

theorem alert_after_two_seconds_counterexample:
  "has_alerts (bell bell_after_first_fetch) \<and> \<not> acknowledged (bell bell_after_first_fetch) \<and>
   timer bell_after_first_fetch = Some 2000 \<and>
   bell_after_second_fetch =
     bell_step 1000 (Fetched (Data [overdue_one, overdue_two])) bell_after_first_fetch \<and>
   has_alerts (bell bell_after_second_fetch) \<and> \<not> acknowledged (bell bell_after_second_fetch) \<and>
   timer bell_after_second_fetch = Some 3000 \<and>
   bell_step 2000 TimerFires bell_after_second_fetch = bell_after_second_fetch \<and>
   \<not> showAlert (bell bell_after_second_fetch) \<and>
   showAlert (bell (bell_step 3000 TimerFires bell_after_second_fetch))"
  by (simp add: bell_after_first_fetch_def bell_after_second_fetch_def overdue_one_def overdue_two_def
      bell_defs eval_defs)

text \<open>
  Claim C8, amended. After any history of the mounted component:
  \<^item> a timer is set only while the component is mounted, a list is not empty and the alert has
    not been acknowledged: it is cleared when the condition clears and on teardown, after
    which nothing happens any more;
  \<^item> an event that changes the length of a list or the flag and leaves the condition true sets
    the timer to two seconds after that event, also when a timer was already set; an event
    that changes none of the three leaves the timer as it is;
  \<^item> the timer's callback opens the alert, and not before its deadline;
  \<^item> the flag \<open>acknowledged\<close> becomes true by the acknowledgment action only and never false
    again; once it is true no timer is set, the callback never runs, and the alert goes from
    closed to open only by a click or at the dialog's own request;
  \<^item> acknowledging changes neither list, and a click on a button that is shown and enabled
    opens the alert with the same combined list, acknowledged or not.
\<close>

theorem alert_opening:
  "let c = bell_run es (mount_bell t0); c' = bell_step now ev c
   in (timer c \<noteq> None \<longrightarrow> mounted c \<and> has_alerts (bell c) \<and> \<not> acknowledged (bell c)) \<and>
      (effect_deps (bell c') \<noteq> effect_deps (bell c) \<and> has_alerts (bell c') \<and> \<not> acknowledged (bell c')
         \<longrightarrow> timer c' = Some (now + 2000)) \<and>
      (effect_deps (bell c') = effect_deps (bell c) \<and> ev \<noteq> TimerFires \<and> ev \<noteq> Unmount
         \<longrightarrow> timer c' = timer c) \<and>
      (timer c = Some d \<longrightarrow>
         bell_step now TimerFires c =
           (if d \<le> now then c\<lparr>bell := (bell c)\<lparr>showAlert := True\<rparr>, timer := None\<rparr> else c)) \<and>
      (timer c = None \<longrightarrow> bell_step now TimerFires c = c) \<and>
      timer (bell_step now Unmount c) = None \<and>
      bell_step later ev (bell_step now Unmount c) = bell_step now Unmount c \<and>
      acknowledged (bell c') = (acknowledged (bell c) \<or> (ev = GotIt \<and> mounted c)) \<and>
      (acknowledged (bell c) \<longrightarrow> timer c = None \<and> bell_step now TimerFires c = c) \<and>
      (acknowledged (bell c) \<and> showAlert (bell c') \<and> \<not> showAlert (bell c)
         \<longrightarrow> ev = Click \<or> ev = OpenChange True) \<and>
      expiredRegistrations (bell (bell_step now GotIt c)) = expiredRegistrations (bell c) \<and>
      expiringRegistrations (bell (bell_step now GotIt c)) = expiringRegistrations (bell c) \<and>
      (mounted c \<and> has_alerts (bell c) \<and> \<not> loading (bell c) \<longrightarrow>
         showAlert (bell (bell_step now Click c)) \<and>
         alert_registrations (bell (bell_step now Click c)) = alert_registrations (bell c))"
proof -
  define c where "c = bell_run es (mount_bell t0)"
  have j: "timer_justified c"
    unfolding c_def by (rule timer_justified_run [OF timer_justified_mount])
  have p1: "timer c \<noteq> None \<longrightarrow> mounted c \<and> has_alerts (bell c) \<and> \<not> acknowledged (bell c)"
    using j by (cases "timer c") (simp_all add: timer_justified_def)
  have p2: "effect_deps (bell (bell_step now ev c)) \<noteq> effect_deps (bell c) \<and> has_alerts (bell (bell_step now ev c))
      \<and> \<not> acknowledged (bell (bell_step now ev c)) \<longrightarrow> timer (bell_step now ev c) = Some (now + 2000)"
    using step_arms [of now ev c] by blast
  have p3: "effect_deps (bell (bell_step now ev c)) = effect_deps (bell c) \<and> ev \<noteq> TimerFires \<and> ev \<noteq> Unmount
      \<longrightarrow> timer (bell_step now ev c) = timer c"
    using step_keeps_timer [of now ev c] by blast
  have p4: "timer c = Some d \<longrightarrow>
         bell_step now TimerFires c =
           (if d \<le> now then c\<lparr>bell := (bell c)\<lparr>showAlert := True\<rparr>, timer := None\<rparr> else c)"
    using step_fires [OF j, of d now] by blast
  have p5: "timer c = None \<longrightarrow> bell_step now TimerFires c = c"
    using step_no_timer [of c now] by blast
  have p6: "timer (bell_step now Unmount c) = None"
    using step_unmount(1) [of now c] p1 by (cases "mounted c") (auto simp: bell_step_def)
  have p7: "bell_step later ev (bell_step now Unmount c) = bell_step now Unmount c"
    by (rule step_unmount(3))
  have p8: "acknowledged (bell (bell_step now ev c)) = (acknowledged (bell c) \<or> (ev = GotIt \<and> mounted c))"
    by (rule acknowledged_step)
  have p9: "acknowledged (bell c) \<longrightarrow> timer c = None \<and> bell_step now TimerFires c = c"
    using acknowledged_timer [OF j] step_no_timer [of c now] by blast
  have p10: "acknowledged (bell c) \<and> showAlert (bell (bell_step now ev c)) \<and> \<not> showAlert (bell c)
         \<longrightarrow> ev = Click \<or> ev = OpenChange True"
    using step_opens [of now ev c] acknowledged_timer [OF j] by auto
  note p11 = step_gotIt_lists [of now c]
  have p12: "mounted c \<and> has_alerts (bell c) \<and> \<not> loading (bell c) \<longrightarrow>
         showAlert (bell (bell_step now Click c)) \<and>
         alert_registrations (bell (bell_step now Click c)) = alert_registrations (bell c)"
    using step_click [of c now] by blast
  show ?thesis
    unfolding Let_def c_def [symmetric]
    using p1 p2 p3 p4 p5 p6 p7 p8 p9 p10 p11 p12 by (intro conjI)
qed


theorem alert_opening_witness:
  "timer bell_after_first_fetch = Some 2000 \<and> mounted bell_after_first_fetch \<and>
   has_alerts (bell bell_after_first_fetch) \<and> \<not> acknowledged (bell bell_after_first_fetch) \<and>
   showAlert (bell (bell_step 2000 TimerFires bell_after_first_fetch)) \<and>
   acknowledged (bell (bell_step 500 GotIt bell_after_first_fetch)) \<and>
   timer (bell_step 500 GotIt bell_after_first_fetch) = None \<and>
   bell_step 2000 TimerFires (bell_step 500 GotIt bell_after_first_fetch)
     = bell_step 500 GotIt bell_after_first_fetch \<and>
   showAlert (bell (bell_step 2000 Click (bell_step 500 GotIt bell_after_first_fetch))) \<and>
   length (expiredRegistrations (bell (bell_step 500 GotIt bell_after_first_fetch))) = 1"
proof -
  let ?c1 = "bell_after_first_fetch"
  let ?c2 = "bell_step 500 GotIt bell_after_first_fetch"
  have e1: "bell_run [(0, Fetched (Data [overdue_one]))] (mount_bell 0) = ?c1"
    by (simp add: bell_after_first_fetch_def)
  have e2: "bell_run [(0, Fetched (Data [overdue_one])), (500, GotIt)] (mount_bell 0) = ?c2"
    by (simp add: bell_after_first_fetch_def)
  have v1: "timer ?c1 = Some 2000" "mounted ?c1" "has_alerts (bell ?c1)" "\<not> acknowledged (bell ?c1)"
    "length (expiredRegistrations (bell ?c1)) = 1"
    by (simp_all add: bell_after_first_fetch_def overdue_one_def bell_defs eval_defs)
  have v2: "mounted ?c2" "has_alerts (bell ?c2)" "\<not> loading (bell ?c2)"
    by (simp_all add: bell_after_first_fetch_def overdue_one_def bell_defs eval_defs)
  note t1 = alert_opening [of "[(0, Fetched (Data [overdue_one]))]" 0 2000 TimerFires 2000 0,
      unfolded Let_def e1]
  note t1' = alert_opening [of "[(0, Fetched (Data [overdue_one]))]" 0 500 GotIt 2000 0,
      unfolded Let_def e1]
  note t2 = alert_opening [of "[(0, Fetched (Data [overdue_one])), (500, GotIt)]" 0 2000 Click 2000 0,
      unfolded Let_def e2]
  from t1 have "timer ?c1 = Some 2000 \<longrightarrow>
         bell_step 2000 TimerFires ?c1 =
           (if (2000 :: int) \<le> 2000 then ?c1\<lparr>bell := (bell ?c1)\<lparr>showAlert := True\<rparr>, timer := None\<rparr> else ?c1)"
    by (elim conjE)
  then have a: "showAlert (bell (bell_step 2000 TimerFires ?c1))" using v1(1) by simp
  from t1' have "acknowledged (bell ?c2) = (acknowledged (bell ?c1) \<or> (GotIt = GotIt \<and> mounted ?c1))"
    by (elim conjE)
  then have b: "acknowledged (bell ?c2)" using v1(2) by simp
  from t2 have "acknowledged (bell ?c2) \<longrightarrow> timer ?c2 = None \<and> bell_step 2000 TimerFires ?c2 = ?c2"
    by (elim conjE)
  then have c: "timer ?c2 = None" "bell_step 2000 TimerFires ?c2 = ?c2" using b by simp_all
  from t2 have "mounted ?c2 \<and> has_alerts (bell ?c2) \<and> \<not> loading (bell ?c2) \<longrightarrow>
         showAlert (bell (bell_step 2000 Click ?c2)) \<and>
         alert_registrations (bell (bell_step 2000 Click ?c2)) = alert_registrations (bell ?c2)"
    by (elim conjE)
  then have d: "showAlert (bell (bell_step 2000 Click ?c2))" using v2 by simp
  from t1' have "expiredRegistrations (bell ?c2) = expiredRegistrations (bell ?c1)" by (elim conjE)
  then have e: "length (expiredRegistrations (bell ?c2)) = 1" using v1(5) by simp
  from v1(1-4) a b c d e show ?thesis by (intro conjI)
qed

section \<open>Updates of the table\<close>

lemma apply_restoreData:
  "apply_update restoreData r = r\<lparr>status := ''pending'', approved_date := None, approved_by := None\<rparr>"
  by (simp add: apply_update_def restoreData_def)

lemma apply_rejected:
  "apply_update (updateData_of tz regs cats now rid ''rejected'') r = r\<lparr>status := ''rejected''\<rparr>"
  by (simp add: apply_update_def updateData_of_def)

lemma length_update_eq_id: "length (update_eq_id u rid store) = length store"
  by (simp add: update_eq_id_def)

lemma nth_update_eq_id:
  "i < length store \<Longrightarrow>
   update_eq_id u rid store ! i = (if reg_id (store ! i) = rid then apply_update u (store ! i) else store ! i)"
  by (simp add: update_eq_id_def)

lemma reg_id_apply_update: "reg_id (apply_update u r) = reg_id r"
  by (simp add: apply_update_def)

lemma map_reg_id_update_eq_id: "map reg_id (update_eq_id u rid store) = map reg_id store"
  by (simp add: update_eq_id_def reg_id_apply_update)

lemma set_update_eq_id:
  "r' \<in> set (update_eq_id u rid store) \<Longrightarrow>
   (\<exists>r \<in> set store. (reg_id r = rid \<and> r' = apply_update u r) \<or> (reg_id r \<noteq> rid \<and> r' = r))"
  by (auto simp: update_eq_id_def)

text \<open>With unique ids, looking a row up by its id finds that row.\<close>

lemma find_distinct_nth:
  assumes "distinct (map reg_id store)" "i < length store"
  shows "find (\<lambda>r. reg_id r = reg_id (store ! i)) store = Some (store ! i)"
proof -
  have "\<exists>j<length store. reg_id (store ! j) = reg_id (store ! i)" using assms(2) by blast
  then obtain r where r: "find (\<lambda>r. reg_id r = reg_id (store ! i)) store = Some r"
    by (cases "find (\<lambda>r. reg_id r = reg_id (store ! i)) store") (auto simp: find_None_iff in_set_conv_nth)
  then have "r \<in> set store" "reg_id r = reg_id (store ! i)"
    by (auto simp: find_Some_iff)
  moreover have "store ! i \<in> set store" using assms(2) by simp
  ultimately have "r = store ! i" using assms(1) by (meson distinct_map inj_onD)
  then show ?thesis using r by simp
qed

lemma approve_ids:
  "map reg_id (fst (approve ok tz regs cats now rid store)) = map reg_id store"
  by (simp add: approve_def updateRegistrationStatus_def map_reg_id_update_eq_id)

lemma approve_length:
  "length (fst (approve ok tz regs cats now rid store)) = length store"
  using approve_ids [of ok tz regs cats now rid store] by (metis length_map)

lemmas lifecycle_defs = approve_def reject_def updateRegistrationStatus_def updateData_of_def
  update_eq_id_def apply_update_def restoreRegistration_def restoreData_def expiryDays_of_def
  add_days_def fixed_zone_def approval_paired_def

section \<open>Approval\<close>

lemma add_days_fixed_zone: "add_days (fixed_zone c) t n = t + n * ms_per_day"
  by (simp add: add_days_def fixed_zone_def Let_def)

lemma apply_approved:
  "apply_update (updateData_of tz registrations cats now rid ''approved'') row =
     row\<lparr> status := ''approved'', approved_date := Some now, approved_by := Some ''eva'',
          expiry_date :=
            (case find (\<lambda>r. reg_id r = rid) registrations of
               None \<Rightarrow> expiry_date row
             | Some reg \<Rightarrow>
                 if truthy (expiry_date reg) then expiry_date row
                 else IsoString (add_days tz now
                        (expiryDays_of (find (\<lambda>c. cat_id c = category_id reg) cats)))) \<rparr>"
  by (simp add: updateData_of_def apply_update_def Let_def split: option.splits)

lemma nth_approve:
  assumes "i < length store" "reg_id (store ! i) = rid"
  shows "fst (approve True tz registrations cats now rid store) ! i =
     (store ! i)\<lparr> status := ''approved'', approved_date := Some now, approved_by := Some ''eva'',
          expiry_date :=
            (case find (\<lambda>r. reg_id r = rid) registrations of
               None \<Rightarrow> expiry_date (store ! i)
             | Some reg \<Rightarrow>
                 if truthy (expiry_date reg) then expiry_date (store ! i)
                 else IsoString (add_days tz now
                        (expiryDays_of (find (\<lambda>c. cat_id c = category_id reg) cats)))) \<rparr>"
  using assms
  by (simp add: approve_def updateRegistrationStatus_def nth_update_eq_id apply_approved)

text \<open>Across a clock change of one hour the move by one calendar day is one hour short of 24.\<close>

lemma add_days_clock_change:
  "add_days \<lparr> offset_at_utc = (\<lambda>t. if t < 43200000 then 0 else 3600000),
              offset_at_local = (\<lambda>t. if t < 43200000 then 0 else 3600000) \<rparr> 0 1
     = ms_per_day - 3600000"
  by (simp add: add_days_def ms_per_day_def Let_def)

text \<open>
  Claim C1, as the spec states it: approving a pending registration without an expiry date
  sets the expiry date to its creation time plus the category's \<open>expiry_days\<close>, and an
  approval never changes an expiry date that is set. The code counts from the clock at the
  approval: a registration created at the epoch and approved one day later, in a category of
  45 days, expires on day 46, not on day 45. And the code looks for the expiry date in the
  tab's own copy of the registration: approved again a day later from a tab that has not
  fetched the table since, the same registration gets the expiry day 47 in place of 46.
\<close>

theorem approve_dates_from_creation_counterexample:
  "status sample_registration = ''pending'' \<and>
   expiry_date sample_registration = Null \<and>
   created_at sample_registration = 0 \<and>
   category_id sample_registration = cat_id sample_category \<and>
   expiry_days sample_category = Some 45 \<and>
   expiry_date (hd (fst (approve True (fixed_zone 0) [sample_registration] [sample_category] ms_per_day ''r1''
       [sample_registration]))) = IsoString (46 * ms_per_day) \<and>
   IsoString (46 * ms_per_day) \<noteq> IsoString (created_at sample_registration + 45 * ms_per_day) \<and>
   expiry_date (hd (fst (approve True (fixed_zone 0) [sample_registration] [sample_category] (2 * ms_per_day) ''r1''
       (fst (approve True (fixed_zone 0) [sample_registration] [sample_category] ms_per_day ''r1''
          [sample_registration]))))) = IsoString (47 * ms_per_day)"
  by (simp add: lifecycle_defs eval_defs)

text \<open>
  Claim C1, amended. Approving a registration sets the status of its row to approved. What
  happens to the expiry date is decided on the tab's copy of the registration, the first one
  with that id. If the copy has no expiry date, the row's expiry date becomes the instant of
  the approval moved forward by \<open>expiryDays\<close> calendar days in the browser's local time,
  which in a zone whose offset does not change is \<open>expiryDays\<close> times 24 hours; \<open>expiryDays\<close>
  is the \<open>expiry_days\<close> of the category found by the copy's \<open>category_id\<close> among the tab's
  categories, and 30 when there is no such category or its \<open>expiry_days\<close> is missing or 0.
  If the copy has an expiry date, or the tab has no copy, the row's expiry date is left
  unchanged. With unique ids, a second approval from a tab that has fetched the table again
  leaves an expiry date that is set unchanged, and after an approval from a tab whose copy is
  the table the expiry date is set.
\<close>

theorem approve_expiry:
  assumes "i < length store" and "reg_id (store ! i) = rid"
  shows "let store' = fst (approve True tz registrations cats now rid store);
             store'' = fst (approve True tz store' cats later rid store')
         in status (store' ! i) = ''approved'' \<and>
            expiry_date (store' ! i) =
              (case find (\<lambda>r. reg_id r = rid) registrations of
                 None \<Rightarrow> expiry_date (store ! i)
               | Some reg \<Rightarrow>
                   if truthy (expiry_date reg) then expiry_date (store ! i)
                   else IsoString (add_days tz now
                          (case find (\<lambda>c. cat_id c = category_id reg) cats of
                             None \<Rightarrow> 30
                           | Some c \<Rightarrow>
                               (case expiry_days c of None \<Rightarrow> 30 | Some d \<Rightarrow> if d = 0 then 30 else d)))) \<and>
            add_days (fixed_zone c) now n = now + n * ms_per_day \<and>
            (distinct (map reg_id store) \<and> truthy (expiry_date (store' ! i)) \<longrightarrow>
               expiry_date (store'' ! i) = expiry_date (store' ! i)) \<and>
            (distinct (map reg_id store) \<and> registrations = store \<longrightarrow> truthy (expiry_date (store' ! i)))"
proof -
  define store' where "store' = fst (approve True tz registrations cats now rid store)"
  note n1 = nth_approve [OF assms, of tz registrations cats now, folded store'_def]
  have l': "i < length store'" unfolding store'_def using assms(1) by (simp add: approve_length)
  have id': "reg_id (store' ! i) = rid" using n1 assms(2) by simp
  have a: "status (store' ! i) = ''approved''" using n1 by simp
  have b: "expiry_date (store' ! i) =
              (case find (\<lambda>r. reg_id r = rid) registrations of
                 None \<Rightarrow> expiry_date (store ! i)
               | Some reg \<Rightarrow>
                   if truthy (expiry_date reg) then expiry_date (store ! i)
                   else IsoString (add_days tz now
                          (expiryDays_of (find (\<lambda>c. cat_id c = category_id reg) cats))))"
    using n1 by simp
  have c: "expiry_date (fst (approve True tz store' cats later rid store') ! i) = expiry_date (store' ! i)"
    if d: "distinct (map reg_id store)" and t: "truthy (expiry_date (store' ! i))"
  proof -
    have d': "distinct (map reg_id store')" unfolding store'_def using d by (simp add: approve_ids)
    have f: "find (\<lambda>r. reg_id r = rid) store' = Some (store' ! i)"
      using find_distinct_nth [OF d' l'] unfolding id' .
    show ?thesis using nth_approve [OF l' id', of tz store' cats later] t by (simp add: f)
  qed
  have e: "truthy (expiry_date (store' ! i))"
    if d: "distinct (map reg_id store)" and r: "registrations = store"
  proof -
    have f: "find (\<lambda>r. reg_id r = rid) registrations = Some (store ! i)"
      using find_distinct_nth [OF d assms(1)] unfolding assms(2) r .
    show ?thesis unfolding b f by (cases "expiry_date (store ! i)") simp_all
  qed
  show ?thesis
    unfolding Let_def store'_def [symmetric] expiryDays_of_def [symmetric]
    using a b c e by (simp add: add_days_fixed_zone)
qed

theorem approve_expiry_witness:
  "(0 :: nat) < length [sample_registration] \<and> reg_id ([sample_registration] ! 0) = ''r1'' \<and>
   distinct (map reg_id [sample_registration]) \<and>
   find (\<lambda>r. reg_id r = ''r1'') [sample_registration] = Some sample_registration \<and>
   \<not> truthy (expiry_date sample_registration) \<and>
   status (fst (approve True (fixed_zone 19800000) [sample_registration] [sample_category] 100 ''r1''
      [sample_registration]) ! 0) = ''approved'' \<and>
   expiry_date (fst (approve True (fixed_zone 19800000) [sample_registration] [sample_category] 100 ''r1''
      [sample_registration]) ! 0) = IsoString (100 + 45 * ms_per_day) \<and>
   expiry_date (fst (approve True (fixed_zone 19800000)
       (fst (approve True (fixed_zone 19800000) [sample_registration] [sample_category] 100 ''r1'' [sample_registration]))
       [sample_category] 200 ''r1''
       (fst (approve True (fixed_zone 19800000) [sample_registration] [sample_category] 100 ''r1'' [sample_registration]))) ! 0)
     = IsoString (100 + 45 * ms_per_day)"
proof -
  let ?z = "fixed_zone 19800000"
  let ?s1 = "fst (approve True ?z [sample_registration] [sample_category] 100 ''r1'' [sample_registration])"
  let ?s2 = "fst (approve True ?z ?s1 [sample_category] 200 ''r1'' ?s1)"
  have l: "(0 :: nat) < length [sample_registration]" by simp
  have i: "reg_id ([sample_registration] ! 0) = ''r1''" by (simp add: sample_registration_def)
  have d: "distinct (map reg_id [sample_registration])" by simp
  have f: "find (\<lambda>r. reg_id r = ''r1'') [sample_registration] = Some sample_registration"
    by (simp add: sample_registration_def)
  have n: "\<not> truthy (expiry_date sample_registration)" by (simp add: sample_registration_def)
  have k: "find (\<lambda>c. cat_id c = category_id sample_registration) [sample_category] = Some sample_category"
    "expiry_days sample_category = Some 45"
    by (simp_all add: sample_registration_def sample_category_def)
  note t = approve_expiry [OF l i, of ?z "[sample_registration]" "[sample_category]" 100 200 19800000 45,
      unfolded Let_def f]
  from t have a: "status (?s1 ! 0) = ''approved''" by (elim conjE)
  have k': "cat_id sample_category = category_id sample_registration"
    by (simp add: sample_registration_def sample_category_def)
  from t n have "expiry_date (?s1 ! 0) = IsoString (add_days ?z 100 45)"
    by (simp add: k k')
  moreover from t have "add_days ?z 100 45 = 100 + 45 * ms_per_day" by (elim conjE)
  ultimately have b: "expiry_date (?s1 ! 0) = IsoString (100 + 45 * ms_per_day)" by simp
  from t have "distinct (map reg_id [sample_registration]) \<and> truthy (expiry_date (?s1 ! 0)) \<longrightarrow>
      expiry_date (?s2 ! 0) = expiry_date (?s1 ! 0)"
    by (elim conjE)
  then have c: "expiry_date (?s2 ! 0) = IsoString (100 + 45 * ms_per_day)"
    using d b by simp
  from l i d f n a b c show ?thesis by (intro conjI)
qed

section \<open>Restoring\<close>

text \<open>
  Claim C4. Restoring a registration whose status is approved or rejected (the dialog
  confirmed, the update accepted) sets its status to pending and its \<open>approved_date\<close> and
  \<open>approved_by\<close> to null, and changes no other field of it, the expiry date in particular;
  rows with another id are not changed.
\<close>

theorem restore_frame:
  assumes "i < length store"
    and "status (store ! i) = ''approved'' \<or> status (store ! i) = ''rejected''"
  shows "let r = store ! i; store' = fst (restoreRegistration True True (reg_id r) store)
         in length store' = length store \<and>
            store' ! i = r\<lparr>status := ''pending'', approved_date := None, approved_by := None\<rparr> \<and>
            status (store' ! i) = ''pending'' \<and> approved_date (store' ! i) = None \<and>
            approved_by (store' ! i) = None \<and> expiry_date (store' ! i) = expiry_date r \<and>
            (\<forall>j < length store. reg_id (store ! j) \<noteq> reg_id r \<longrightarrow> store' ! j = store ! j)"
  using assms(1)
  by (simp add: Let_def restoreRegistration_def length_update_eq_id nth_update_eq_id apply_restoreData)

theorem restore_frame_witness:
  "(0 :: nat) < length [approved_registration, sample_registration\<lparr>reg_id := ''r2''\<rparr>] \<and>
   status ([approved_registration, sample_registration\<lparr>reg_id := ''r2''\<rparr>] ! 0) = ''approved'' \<and>
   fst (restoreRegistration True True ''r1'' [approved_registration, sample_registration\<lparr>reg_id := ''r2''\<rparr>]) ! 0
     = approved_registration\<lparr>status := ''pending'', approved_date := None, approved_by := None\<rparr> \<and>
   expiry_date (fst (restoreRegistration True True ''r1''
       [approved_registration, sample_registration\<lparr>reg_id := ''r2''\<rparr>]) ! 0) = IsoString (45 * ms_per_day) \<and>
   fst (restoreRegistration True True ''r1'' [approved_registration, sample_registration\<lparr>reg_id := ''r2''\<rparr>]) ! 1
     = sample_registration\<lparr>reg_id := ''r2''\<rparr>"
proof -
  let ?store = "[approved_registration, sample_registration\<lparr>reg_id := ''r2''\<rparr>]"
  have l: "(0 :: nat) < length ?store" by simp
  have s0: "status (?store ! 0) = ''approved''"
    by (simp add: approved_registration_def)
  then have s: "status (?store ! 0) = ''approved'' \<or> status (?store ! 0) = ''rejected''" ..
  have i: "reg_id (?store ! 0) = ''r1''" "reg_id (?store ! 1) = ''r2''"
    by (simp_all add: approved_registration_def sample_registration_def)
  have e: "expiry_date (?store ! 0) = IsoString (45 * ms_per_day)"
    by (simp add: approved_registration_def)
  note t = restore_frame [OF l s, unfolded Let_def i e]
  from t have r0: "fst (restoreRegistration True True ''r1'' ?store) ! 0
      = (?store ! 0)\<lparr>status := ''pending'', approved_date := None, approved_by := None\<rparr>"
    by (elim conjE)
  from t have e0: "expiry_date (fst (restoreRegistration True True ''r1'' ?store) ! 0) = IsoString (45 * ms_per_day)"
    by (elim conjE)
  from t have a: "\<forall>j < length ?store. reg_id (?store ! j) \<noteq> ''r1''
      \<longrightarrow> fst (restoreRegistration True True ''r1'' ?store) ! j = ?store ! j"
    by (elim conjE)
  have p1: "1 < length ?store" by simp
  have ne: "reg_id (?store ! 1) \<noteq> ''r1''" unfolding i by simp
  have r1: "fst (restoreRegistration True True ''r1'' ?store) ! 1 = ?store ! 1"
    by (rule a [rule_format, OF p1 ne])
  show ?thesis
    using l s0 r0 e0 r1 by simp
qed

section \<open>Pairing of the approval columns\<close>

lemma paired_approved:
  "approval_paired (apply_update (updateData_of tz regs cats now rid ''approved'') r)"
  by (simp add: approval_paired_def apply_update_def updateData_of_def)

lemma paired_restored: "approval_paired (apply_update restoreData r)"
  by (simp add: approval_paired_def apply_restoreData)

lemma paired_rejected:
  "approval_paired r \<Longrightarrow> approval_paired (apply_update (updateData_of tz regs cats now rid ''rejected'') r)"
  by (simp add: approval_paired_def apply_rejected)

lemma paired_update_eq_id:
  assumes "\<forall>r \<in> set store. approval_paired r" and "\<And>r. approval_paired r \<Longrightarrow> approval_paired (apply_update u r)"
  shows "\<forall>r \<in> set (update_eq_id u rid store). approval_paired r"
  using assms by (auto simp: update_eq_id_def)

text \<open>
  Claim C5. If in every row of the table \<open>approved_date\<close> and \<open>approved_by\<close> are both null
  or both set, the same holds after an approval, a rejection and a restore, whether or not
  the backend accepts the update. An approval sets both, a restore clears both, and a
  rejection changes neither column in any row.
\<close>

theorem pairing_preserved:
  assumes "\<forall>r \<in> set store. approval_paired r"
  shows "(\<forall>r \<in> set (fst (approve ok tz regs cats now rid store)). approval_paired r) \<and>
         (\<forall>r \<in> set (fst (reject ok tz regs cats now rid store)). approval_paired r) \<and>
         (\<forall>r \<in> set (fst (restoreRegistration confirmed ok rid store)). approval_paired r) \<and>
         (\<forall>r \<in> set (fst (approve True tz regs cats now rid store)).
            reg_id r = rid \<longrightarrow> approved_date r = Some now \<and> approved_by r = Some ''eva'') \<and>
         (\<forall>r \<in> set (fst (restoreRegistration True True rid store)).
            reg_id r = rid \<longrightarrow> approved_date r = None \<and> approved_by r = None) \<and>
         map approved_date (fst (reject ok tz regs cats now rid store)) = map approved_date store \<and>
         map approved_by (fst (reject ok tz regs cats now rid store)) = map approved_by store"
proof -
  have a: "\<forall>r \<in> set (fst (approve ok tz regs cats now rid store)). approval_paired r"
    using assms paired_update_eq_id [OF assms, of "updateData_of tz regs cats now rid ''approved''" rid]
    by (cases ok) (simp_all add: approve_def updateRegistrationStatus_def paired_approved)
  have b: "\<forall>r \<in> set (fst (reject ok tz regs cats now rid store)). approval_paired r"
    using assms paired_update_eq_id [OF assms, of "updateData_of tz regs cats now rid ''rejected''" rid]
    by (cases ok) (simp_all add: reject_def updateRegistrationStatus_def paired_rejected)
  have c: "\<forall>r \<in> set (fst (restoreRegistration confirmed ok rid store)). approval_paired r"
    using assms paired_update_eq_id [OF assms, of restoreData rid]
    by (cases ok; cases confirmed) (simp_all add: restoreRegistration_def paired_restored)
  have d: "\<forall>r \<in> set (fst (approve True tz regs cats now rid store)).
            reg_id r = rid \<longrightarrow> approved_date r = Some now \<and> approved_by r = Some ''eva''"
  proof (intro ballI impI)
    fix r assume "r \<in> set (fst (approve True tz regs cats now rid store))" "reg_id r = rid"
    then obtain r0 where "r = apply_update (updateData_of tz regs cats now rid ''approved'') r0"
      by (auto simp: approve_def updateRegistrationStatus_def dest!: set_update_eq_id)
    then show "approved_date r = Some now \<and> approved_by r = Some ''eva''"
      by (simp add: apply_update_def updateData_of_def)
  qed
  have e: "\<forall>r \<in> set (fst (restoreRegistration True True rid store)).
            reg_id r = rid \<longrightarrow> approved_date r = None \<and> approved_by r = None"
  proof (intro ballI impI)
    fix r assume "r \<in> set (fst (restoreRegistration True True rid store))" "reg_id r = rid"
    then obtain r0 where "r = apply_update restoreData r0"
      by (auto simp: restoreRegistration_def dest!: set_update_eq_id)
    then show "approved_date r = None \<and> approved_by r = None"
      by (simp add: apply_restoreData)
  qed
  have f: "map approved_date (fst (reject ok tz regs cats now rid store)) = map approved_date store"
    by (simp add: reject_def updateRegistrationStatus_def update_eq_id_def apply_rejected)
  have g: "map approved_by (fst (reject ok tz regs cats now rid store)) = map approved_by store"
    by (simp add: reject_def updateRegistrationStatus_def update_eq_id_def apply_rejected)
  from a b c d e f g show ?thesis by (intro conjI)
qed

theorem pairing_preserved_witness:
  "approval_paired sample_registration \<and> approval_paired approved_registration \<and>
   approval_paired (hd (fst (approve True (fixed_zone 0) [sample_registration] [sample_category] 7000 ''r1'' [sample_registration]))) \<and>
   approved_date (hd (fst (approve True (fixed_zone 0) [sample_registration] [sample_category] 7000 ''r1'' [sample_registration])))
     = Some 7000 \<and>
   approved_by (hd (fst (approve True (fixed_zone 0) [sample_registration] [sample_category] 7000 ''r1'' [sample_registration])))
     = Some ''eva'' \<and>
   approval_paired (hd (fst (reject True (fixed_zone 0) [sample_registration] [sample_category] 7000 ''r1'' [sample_registration]))) \<and>
   approval_paired (hd (fst (restoreRegistration True True ''r1'' [approved_registration]))) \<and>
   approved_date (hd (fst (restoreRegistration True True ''r1'' [approved_registration]))) = None \<and>
   approved_by (hd (fst (restoreRegistration True True ''r1'' [approved_registration]))) = None"
proof -
  have p: "approval_paired sample_registration"
    by (simp add: approval_paired_def sample_registration_def)
  then have h: "\<forall>r \<in> set [sample_registration]. approval_paired r" by simp
  have p': "approval_paired approved_registration"
    by (simp add: approval_paired_def approved_registration_def)
  then have h': "\<forall>r \<in> set [approved_registration]. approval_paired r" by simp
  note t = pairing_preserved [OF h, of True "fixed_zone 0" "[sample_registration]" "[sample_category]" 7000 "''r1''" True]
  note t' = pairing_preserved [OF h', of True "fixed_zone 0" "[approved_registration]" "[sample_category]" 7000 "''r1''" True]
  let ?a = "fst (approve True (fixed_zone 0) [sample_registration] [sample_category] 7000 ''r1'' [sample_registration])"
  let ?j = "fst (reject True (fixed_zone 0) [sample_registration] [sample_category] 7000 ''r1'' [sample_registration])"
  let ?s = "fst (restoreRegistration True True ''r1'' [approved_registration])"
  have ma: "hd ?a \<in> set ?a"
    by (simp add: approve_def updateRegistrationStatus_def update_eq_id_def)
  have mj: "hd ?j \<in> set ?j"
    by (simp add: reject_def updateRegistrationStatus_def update_eq_id_def)
  have ms: "hd ?s \<in> set ?s"
    by (simp add: restoreRegistration_def update_eq_id_def)
  have ia: "reg_id (hd ?a) = ''r1''"
    by (simp add: approve_def updateRegistrationStatus_def update_eq_id_def reg_id_apply_update
        sample_registration_def)
  have ir: "reg_id (hd ?s) = ''r1''"
    by (simp add: restoreRegistration_def update_eq_id_def reg_id_apply_update
        sample_registration_def approved_registration_def)
  from t have t1: "\<forall>r \<in> set ?a. approval_paired r" by (elim conjE)
  from t have t2: "\<forall>r \<in> set ?j. approval_paired r" by (elim conjE)
  from t' have t3: "\<forall>r \<in> set ?s. approval_paired r" by (elim conjE)
  from t have t4: "\<forall>r \<in> set ?a. reg_id r = ''r1'' \<longrightarrow> approved_date r = Some 7000 \<and> approved_by r = Some ''eva''"
    by (elim conjE)
  from t' have t5: "\<forall>r \<in> set ?s. reg_id r = ''r1'' \<longrightarrow> approved_date r = None \<and> approved_by r = None"
    by (elim conjE)
  note r1 = t1 [rule_format, OF ma] and r2 = t2 [rule_format, OF mj] and r3 = t3 [rule_format, OF ms]
    and r4 = t4 [rule_format, OF ma ia] and r5 = t5 [rule_format, OF ms ir]
  from p p' r1 r2 r3 r4 r5 show ?thesis by (intro conjI) (elim conjE, assumption)+
qed

section \<open>Reading the filter box\<close>

lemmas parse_defs = parseInt_def is_space_def digit_value_def digit_chars_def digits_value_def Let_def

lemma parseInt_Nil: "parseInt [] = None"
  by (simp add: parseInt_def)

lemma parse_examples:
  "parseInt ''5'' = Some 5" "parseInt ''0'' = Some 0" "parseInt ''  -12px'' = Some (- 12)"
  "parseInt ''0x1f'' = Some 31" "parseInt ''abc'' = None" "parseInt ''1e3'' = Some 1" "parseInt ''30'' = Some 30"
  by (simp_all add: parse_defs)

lemma lt10_cases: "d < 10 \<Longrightarrow> d \<in> {0, 1, 2, 3, 4, 5, 6, 7, 8, 9 :: nat}"
  by auto

lemma digit_value_digit_char: "d < 10 \<Longrightarrow> digit_value 10 (digit_char d) = Some d"
  by (drule lt10_cases) (auto simp: digit_value_def digit_chars_def digit_char_def)

lemma digit_char_plain:
  "d < 10 \<Longrightarrow> \<not> is_space (digit_char d) \<and> digit_char d \<noteq> CHR ''+'' \<and> digit_char d \<noteq> CHR ''-''
     \<and> digit_char d \<noteq> CHR ''x'' \<and> digit_char d \<noteq> CHR ''X''"
  by (drule lt10_cases) (auto simp: is_space_def digit_char_def)

lemma digits_value_snoc:
  "digits_value r (z @ [c]) = digits_value r z * r + (case digit_value r c of None \<Rightarrow> 0 | Some v \<Rightarrow> v)"
  by (simp add: digits_value_def)

lemma decimal_chars: "c \<in> set (decimal n) \<Longrightarrow> \<exists>d < 10. c = digit_char d"
proof (induction n rule: decimal.induct)
  case (1 n)
  show ?case
  proof (cases "n < 10")
    case True
    then show ?thesis using "1.prems" by (subst (asm) decimal.simps) auto
  next
    case False
    from "1.prems" have "c \<in> set (decimal (n div 10)) \<or> c = digit_char (n mod 10)"
      using False by (subst (asm) decimal.simps) auto
    then show ?thesis
    proof
      assume "c \<in> set (decimal (n div 10))"
      then show ?thesis using "1.IH" [OF False] by blast
    next
      assume "c = digit_char (n mod 10)"
      moreover have "n mod 10 < 10" by simp
      ultimately show ?thesis by blast
    qed
  qed
qed

lemma decimal_not_Nil: "decimal n \<noteq> []"
  by (subst decimal.simps) simp

lemma digits_value_decimal: "digits_value 10 (decimal n) = n"
proof (induction n rule: decimal.induct)
  case (1 n)
  show ?case
  proof (cases "n < 10")
    case True
    then show ?thesis
      by (subst decimal.simps) (simp add: digits_value_def digit_value_digit_char)
  next
    case False
    have "digits_value 10 (decimal n) = digits_value 10 (decimal (n div 10) @ [digit_char (n mod 10)])"
      using False by (subst decimal.simps) simp
    also have "\<dots> = (n div 10) * 10 + n mod 10"
      using "1.IH" [OF False] by (simp add: digits_value_snoc digit_value_digit_char)
    finally show ?thesis by simp
  qed
qed

lemma parseInt_plain:
  assumes "s \<noteq> []" "\<not> is_space (hd s)" "hd s \<noteq> CHR ''+''" "hd s \<noteq> CHR ''-''"
    and "take 2 s \<noteq> ''0x''" "take 2 s \<noteq> ''0X''"
    and tw: "takeWhile (\<lambda>c. digit_value 10 c \<noteq> None) s = s"
  shows "parseInt s = Some (int (digits_value 10 s))"
proof -
  have d: "dropWhile is_space s = s" using assms(1,2) by (cases s) simp_all
  have sign: "(case s of [] \<Rightarrow> 1 | c # _ \<Rightarrow> if c = CHR ''-'' then - 1 else (1 :: int)) = 1"
    using assms(1,4) by (cases s) simp_all
  have s1: "(case s of [] \<Rightarrow> s | c # rest \<Rightarrow> if c = CHR ''+'' \<or> c = CHR ''-'' then rest else s) = s"
    using assms(1,3,4) by (cases s) simp_all
  have hex: "(take 2 s = ''0x'' \<or> take 2 s = ''0X'') = False"
    using assms(5,6) by simp
  show ?thesis
    unfolding parseInt_def d Let_def sign s1 hex if_False tw
    using assms(1) by simp
qed

lemma parseInt_decimal: "parseInt (decimal n) = Some (int n)"
proof -
  have all: "\<forall>x \<in> set (decimal n). \<not> is_space x \<and> x \<noteq> CHR ''+'' \<and> x \<noteq> CHR ''-''
      \<and> x \<noteq> CHR ''x'' \<and> x \<noteq> CHR ''X'' \<and> digit_value 10 x \<noteq> None"
    using decimal_chars digit_char_plain digit_value_digit_char by fastforce
  have "hd (decimal n) \<in> set (decimal n)" using decimal_not_Nil by simp
  then have c: "\<not> is_space (hd (decimal n))" "hd (decimal n) \<noteq> CHR ''+''" "hd (decimal n) \<noteq> CHR ''-''"
    using all by auto
  have nohex: "take 2 (decimal n) \<noteq> ''0x''" "take 2 (decimal n) \<noteq> ''0X''"
  proof -
    have "set (take 2 (decimal n)) \<subseteq> set (decimal n)" by (rule set_take_subset)
    then have "CHR ''x'' \<notin> set (take 2 (decimal n))" "CHR ''X'' \<notin> set (take 2 (decimal n))"
      using all by auto
    then show "take 2 (decimal n) \<noteq> ''0x''" "take 2 (decimal n) \<noteq> ''0X''" by auto
  qed
  have tw: "takeWhile (\<lambda>c. digit_value 10 c \<noteq> None) (decimal n) = decimal n"
    using all by (simp add: takeWhile_eq_all_conv)
  show ?thesis
    using parseInt_plain [OF decimal_not_Nil c nohex tw] by (simp add: digits_value_decimal)
qed

section \<open>The expiry filter\<close>

lemma matchesExpiry_diffDays:
  "matchesExpiry expiryFilter now reg =
     (expiryFilter = [] \<or>
      (status reg \<noteq> ''approved'' \<and>
         (if js_eq (parseInt expiryFilter) (Some 0) then js_le (diffDays (expiry_date reg) now) (Some 0)
          else js_le (diffDays (expiry_date reg) now) (parseInt expiryFilter)
               \<and> js_ge (diffDays (expiry_date reg) now) (Some 0))))"
  by (simp add: matchesExpiry_def diffDays_def Let_def)

text \<open>
  Claim C2. When the filter box holds a text, an approved registration never matches. When
  the text reads as a threshold \<open>N \<ge> 0\<close>, a registration that is not approved matches
  exactly when its days remaining are a number \<open>d\<close> with \<open>0 \<le> d \<le> N\<close> if \<open>N > 0\<close>, and with
  \<open>d \<le> 0\<close>, however negative, if \<open>N = 0\<close>. (By \<open>parseInt_decimal\<close> every \<open>N \<ge> 0\<close> is
  read from its decimal numeral.)
\<close>

theorem expiry_filter_threshold:
  "(expiryFilter \<noteq> [] \<and> status reg = ''approved'' \<longrightarrow> \<not> matchesExpiry expiryFilter now reg) \<and>
   (parseInt expiryFilter = Some N \<and> 0 \<le> N \<and> status reg \<noteq> ''approved'' \<longrightarrow>
      matchesExpiry expiryFilter now reg =
        (\<exists>d. diffDays (expiry_date reg) now = Some d \<and> (if N = 0 then d \<le> 0 else 0 \<le> d \<and> d \<le> N)))"
proof (intro conjI impI)
  assume "expiryFilter \<noteq> [] \<and> status reg = ''approved''"
  then show "\<not> matchesExpiry expiryFilter now reg"
    by (simp add: matchesExpiry_diffDays)
next
  assume a: "parseInt expiryFilter = Some N \<and> 0 \<le> N \<and> status reg \<noteq> ''approved''"
  then have ne: "expiryFilter \<noteq> []" using parseInt_Nil by auto
  show "matchesExpiry expiryFilter now reg =
        (\<exists>d. diffDays (expiry_date reg) now = Some d \<and> (if N = 0 then d \<le> 0 else 0 \<le> d \<and> d \<le> N))"
  proof (cases "diffDays (expiry_date reg) now")
    case None
    then show ?thesis using a ne by (simp add: matchesExpiry_diffDays js_le_def js_ge_def js_eq_def)
  next
    case (Some d)
    then show ?thesis using a ne by (auto simp: matchesExpiry_diffDays js_le_def js_ge_def js_eq_def)
  qed
qed

theorem expiry_filter_threshold_witness:
  "''5'' \<noteq> [] \<and> parseInt ''5'' = Some 5 \<and> (0 :: int) \<le> 5 \<and>
   status (sample_registration\<lparr>expiry_date := IsoString (3 * ms_per_day)\<rparr>) \<noteq> ''approved'' \<and>
   status (sample_registration\<lparr>status := ''approved'', expiry_date := IsoString (3 * ms_per_day)\<rparr>) = ''approved'' \<and>
   diffDays (expiry_date (sample_registration\<lparr>expiry_date := IsoString (3 * ms_per_day)\<rparr>)) 0 = Some 3 \<and>
   matchesExpiry ''5'' 0 (sample_registration\<lparr>expiry_date := IsoString (3 * ms_per_day)\<rparr>) \<and>
   \<not> matchesExpiry ''5'' 0 (sample_registration\<lparr>status := ''approved'', expiry_date := IsoString (3 * ms_per_day)\<rparr>)"
proof -
  let ?r = "sample_registration\<lparr>expiry_date := IsoString (3 * ms_per_day)\<rparr>"
  let ?a = "sample_registration\<lparr>status := ''approved'', expiry_date := IsoString (3 * ms_per_day)\<rparr>"
  have p: "parseInt ''5'' = Some 5" by (simp add: parse_defs)
  have s: "status ?r \<noteq> ''approved''" by (simp add: sample_registration_def)
  have sa: "status ?a = ''approved''" by simp
  have d: "diffDays (expiry_date ?r) 0 = Some 3" by (simp add: eval_defs)
  have n: "''5'' \<noteq> []" by simp
  from expiry_filter_threshold [of "''5''" ?a 0 5] n sa
  have m1: "\<not> matchesExpiry ''5'' 0 ?a" by blast
  from expiry_filter_threshold [of "''5''" ?r 0 5] p s
  have "matchesExpiry ''5'' 0 ?r =
      (\<exists>d. diffDays (expiry_date ?r) 0 = Some d \<and> (if (5 :: int) = 0 then d \<le> 0 else 0 \<le> d \<and> d \<le> 5))"
    by simp
  then have m2: "matchesExpiry ''5'' 0 ?r" unfolding d by simp
  from n p s sa d m1 m2 show ?thesis by simp
qed

text \<open>
  On day 10: threshold 0 matches an expiry on day 5 and on day 10 but not on day 11;
  threshold 5 matches 0 to 5 days remaining but not -1 or 6; an empty box matches everything.
\<close>

lemma expiry_filter_examples:
  "matchesExpiry ''0'' (10 * ms_per_day) (sample_registration\<lparr>expiry_date := IsoString (5 * ms_per_day)\<rparr>)"
  "matchesExpiry ''0'' (10 * ms_per_day) (sample_registration\<lparr>expiry_date := IsoString (10 * ms_per_day)\<rparr>)"
  "\<not> matchesExpiry ''0'' (10 * ms_per_day) (sample_registration\<lparr>expiry_date := IsoString (11 * ms_per_day)\<rparr>)"
  "map (\<lambda>k. matchesExpiry ''5'' (10 * ms_per_day) (sample_registration\<lparr>expiry_date := IsoString (k * ms_per_day)\<rparr>))
     [9, 10, 11, 12, 13, 14, 15, 16] = [False, True, True, True, True, True, True, False]"
  "matchesExpiry [] (10 * ms_per_day) (sample_registration\<lparr>status := ''approved''\<rparr>)"
  by (simp_all add: matchesExpiry_def parse_defs eval_defs)

section \<open>Registrations without an expiry date\<close>

text \<open>
  Claim C9 says that a registration that is not approved and whose expiry date is null has
  \<^verbatim>\<open>NaN\<close> days remaining and so appears in no expiry view. In the code \<^verbatim>\<open>new Date(null)\<close> is
  the epoch: on 14 November 2023 (instant 1700000000000) a pending registration with a null
  expiry date has -19675 days remaining, is listed by the bell as expired, and matches the
  filter with threshold 0.
\<close>

theorem null_expiry_counts_as_expired:
  "status sample_registration = ''pending'' \<and>
   expiry_date sample_registration = Null \<and>
   diffDays (expiry_date sample_registration) 1700000000000 = Some (- 19675) \<and>
   map days_remaining (expiredRegistrations
     (fetchExpiringRegistrations (Data (select_pending [sample_registration])) 1700000000000 initial_bell))
     = [Some (- 19675)] \<and>
   listed sample_registration (expiredRegistrations
     (fetchExpiringRegistrations (Data (select_pending [sample_registration])) 1700000000000 initial_bell)) \<and>
   matchesExpiry ''0'' 1700000000000 sample_registration"
  by (simp add: matchesExpiry_def parse_defs eval_defs)

text \<open>
  Only when the property is absent altogether (\<^verbatim>\<open>undefined\<close>) are the days remaining \<^verbatim>\<open>NaN\<close>,
  and the registration in no bucket and matched by no threshold.
\<close>

lemma undefined_expiry_excluded:
  assumes "expiry_date reg = Undefined"
  shows "expired_of (map (processReg now) [reg]) = []"
    and "expiring_of (map (processReg now) [reg]) = []"
    and "expiryFilter \<noteq> [] \<Longrightarrow> \<not> matchesExpiry expiryFilter now reg"
proof -
  have d: "days_remaining (processReg now reg) = None"
    using assms by (simp add: days_processReg diffDays_Undefined)
  show "expired_of (map (processReg now) [reg]) = []"
    by (simp add: expired_of_def d js_le_def)
  show "expiring_of (map (processReg now) [reg]) = []"
    by (simp add: expiring_of_def d js_le_def js_gt_def)
  show "expiryFilter \<noteq> [] \<Longrightarrow> \<not> matchesExpiry expiryFilter now reg"
    using assms by (simp add: matchesExpiry_diffDays diffDays_Undefined js_le_def js_ge_def)
qed

section \<open>CSV export\<close>

text \<open>
  The header row, the date pattern, the literal \<open>N/A\<close> for a missing panchayath, category or
  expiry date, and the file name are as the spec gives them. A name without a double quote
  is a correctly quoted field.
\<close>

lemmas csv_defs = csv_fields_def csvData_def download_name_def handleExportRegistrations_def headers_def
  quoted_field_def or_default_def

lemma csv_header:
  "csvData format [] = ''Name,Mobile Number,Panchayath,Category,Registered Date,Expiry Date''"
  "csvData format (r # rs) =
     ''Name,Mobile Number,Panchayath,Category,Registered Date,Expiry Date'' @ [newline]
       @ join [newline] (map (\<lambda>reg. join '','' (csv_fields format reg)) (r # rs))"
  by (simp_all add: csvData_def headers_def)

lemma csv_dates:
  "csv_fields format reg ! 4 = format (created_at reg) ''dd/MM/yyyy''"
  "expiry_date reg = IsoString t \<Longrightarrow> csv_fields format reg ! 5 = format t ''dd/MM/yyyy''"
  by (simp_all add: csv_fields_def)

lemma csv_missing:
  "panchayaths reg = None \<Longrightarrow> csv_fields format reg ! 2 = [dquote] @ ''N/A'' @ [dquote]"
  "categories reg = None \<Longrightarrow> csv_fields format reg ! 3 = [dquote] @ ''N/A'' @ [dquote]"
  "expiry_date reg = Null \<Longrightarrow> csv_fields format reg ! 5 = ''N/A''"
  by (simp_all add: csv_fields_def)

lemma csv_file_name:
  "fst (handleExportRegistrations format now regs) = ''registrations-export-'' @ format now ''yyyy-MM-dd'' @ ''.csv''"
  by (simp add: handleExportRegistrations_def download_name_def)

lemma quoted_field_plain:
  "dquote \<notin> set s \<Longrightarrow> quoted_field s = [dquote] @ s @ [dquote]"
proof -
  assume "dquote \<notin> set s"
  then have "concat (map (\<lambda>c. if c = dquote then [dquote, dquote] else [c]) s) = s"
    by (induction s) auto
  then show ?thesis by (simp add: quoted_field_def)
qed

lemma csv_name_plain:
  "dquote \<notin> set (full_name reg) \<Longrightarrow> csv_fields format reg ! 0 = quoted_field (full_name reg)"
  by (simp add: quoted_field_plain csv_fields_def)

text \<open>
  Claim C6 says the export correctly quotes the name field of every registration. The name
  is put between double quotes as it is: for the name \<open>A"B\<close> the export writes \<open>"A"B"\<close>,
  where a correctly quoted field is \<open>"A""B"\<close>; a reader takes the second quote for the end of
  the field.
\<close>

theorem csv_name_with_quote_not_escaped:
  "csv_fields format (sample_registration\<lparr>full_name := [CHR ''A'', dquote, CHR ''B'']\<rparr>) ! 0
     = [dquote, CHR ''A'', dquote, CHR ''B'', dquote] \<and>
   quoted_field (full_name (sample_registration\<lparr>full_name := [CHR ''A'', dquote, CHR ''B'']\<rparr>))
     = [dquote, CHR ''A'', dquote, dquote, CHR ''B'', dquote] \<and>
   csv_fields format (sample_registration\<lparr>full_name := [CHR ''A'', dquote, CHR ''B'']\<rparr>) ! 0
     \<noteq> quoted_field (full_name (sample_registration\<lparr>full_name := [CHR ''A'', dquote, CHR ''B'']\<rparr>)) \<and>
   snd (handleExportRegistrations format now [sample_registration\<lparr>full_name := [CHR ''A'', dquote, CHR ''B'']\<rparr>])
     = ''Name,Mobile Number,Panchayath,Category,Registered Date,Expiry Date'' @ [newline]
       @ [dquote, CHR ''A'', dquote, CHR ''B'', dquote] @ '',9000000001,'' @ [dquote] @ ''N/A'' @ [dquote]
       @ '','' @ [dquote] @ ''Job Card'' @ [dquote] @ '','' @ format 0 ''dd/MM/yyyy'' @ '',N/A''"
  by (simp add: csv_defs sample_registration_def dquote_def)

section \<open>Category transfer requests\<close>









end
